theory Spec2Isabelle
  imports Main
begin

section \<open>Time, dates and the platform\<close>

text \<open>
  The habit tracker lives in \<^verbatim>\<open>src/app/layout.tsx\<close> (the page component
  \<^verbatim>\<open>HomePage\<close> and the helpers before it). Its logic is calendar arithmetic on
  JavaScript \<^verbatim>\<open>Date\<close> values, done through date-fns.

  \<^item> An instant is its time value: milliseconds since the epoch, an \<^typ>\<open>int\<close>.
  \<^item> A \<^verbatim>\<open>Date\<close> object is an \<^typ>\<open>int option\<close>: \<open>None\<close> is the Invalid Date.
  \<^item> The local time zone is a fixed offset \<open>tz\<close> in milliseconds, local time being
    \<open>t + tz\<close>; daylight-saving changes of the offset are not modelled.
  \<^item> A string that is only ever handed to \<^verbatim>\<open>new Date(...)\<close> (the entries of
    \<^verbatim>\<open>history\<close>, \<^verbatim>\<open>lastCompleted\<close>, \<^verbatim>\<open>createdAt\<close>) is modelled by what
    \<^verbatim>\<open>new Date\<close> makes of it: \<open>ISO t\<close> is a string that parses to the instant \<open>t\<close>
    (as the output of \<^verbatim>\<open>toISOString\<close> does), \<open>Garbage\<close> is a string that parses to
    the Invalid Date. The empty string is among these; where the code tests such a
    field for truthiness before parsing it (\<^verbatim>\<open>lastCompleted\<close>), the falsy branch and
    the Invalid Date come to the same result.
  \<^item> Counts (\<^verbatim>\<open>streak\<close>, \<^verbatim>\<open>longestStreak\<close>) are integers.
  \<^item> The clock (\<^verbatim>\<open>new Date()\<close>) is an argument \<open>now\<close> of each operation that reads
    it. What the code does is modelled for every reading; the theorems that say that
    Complete returns take the reading to be of the years 0001 to 9999.
  \<^item> A local calendar day is its number (days since 1 January 1970, local). The
    \<^verbatim>\<open>yyyy-MM-dd\<close> string that date-fns prints for a day is a \<open>dayKey\<close>; what it
    is for days outside the years 0001 to 9999, and what \<^verbatim>\<open>new Date\<close> makes of a
    key, is written out below (\<open>keyOfDay\<close>, \<open>dateOfKey\<close>).
  \<^item> The name of a habit, which \<^verbatim>\<open>trim\<close> reads character by character, and the
    messages built from it are lists of UTF-16 code units (\<open>utf16\<close>); identifiers and
    reminder times, which are only compared, split at colons and handed to
    \<^verbatim>\<open>Number\<close>, are \<open>string\<close>s.
\<close>

type_synonym instant = int
type_synonym date = "int option"
type_synonym utf16 = "nat list"

text \<open>A string literal as code units.\<close>

definition lit :: "string \<Rightarrow> utf16" where
  "lit s = map of_char s"

datatype isoString = ISO instant | Garbage

datatype error = RangeError

definition localDay :: "int \<Rightarrow> instant \<Rightarrow> int" where
  "localDay tz t = (t + tz) div 86400000"

definition localMidnight :: "int \<Rightarrow> int \<Rightarrow> instant" where
  "localMidnight tz d = d * 86400000 - tz"

text \<open>\<^verbatim>\<open>new Date(iso)\<close>.\<close>

fun newDate :: "isoString \<Rightarrow> date" where
  "newDate (ISO t) = Some t"
| "newDate Garbage = None"

text \<open>\<^verbatim>\<open>date.toISOString()\<close>: throws a RangeError on the Invalid Date.\<close>

fun toISOString :: "date \<Rightarrow> error + isoString" where
  "toISOString None = Inl RangeError"
| "toISOString (Some t) = Inr (ISO t)"

text \<open>\<^verbatim>\<open>date.getTime()\<close>: \<open>None\<close> is NaN.\<close>

definition getTime :: "date \<Rightarrow> int option" where
  "getTime d = d"

text \<open>date-fns \<^verbatim>\<open>startOfDay\<close>: the local midnight of the date; invalid stays invalid.\<close>

fun startOfDay :: "int \<Rightarrow> date \<Rightarrow> date" where
  "startOfDay tz None = None"
| "startOfDay tz (Some t) = Some (localMidnight tz (localDay tz t))"

text \<open>date-fns \<^verbatim>\<open>isSameDay\<close> compares the time values of the two starts of day;
  NaN is equal to nothing.\<close>

definition isSameDay :: "int \<Rightarrow> date \<Rightarrow> date \<Rightarrow> bool" where
  "isSameDay tz a b =
     (case (startOfDay tz a, startOfDay tz b) of
        (Some x, Some y) \<Rightarrow> x = y
      | _ \<Rightarrow> False)"

text \<open>date-fns \<^verbatim>\<open>isToday(date)\<close> is \<^verbatim>\<open>isSameDay(date, Date.now())\<close>; the clock is
  the argument \<open>now\<close>.\<close>

definition isToday :: "int \<Rightarrow> instant \<Rightarrow> date \<Rightarrow> bool" where
  "isToday tz now d = isSameDay tz d (Some now)"

text \<open>date-fns \<^verbatim>\<open>differenceInCalendarDays\<close>: \<open>None\<close> is NaN.\<close>

fun differenceInCalendarDays :: "int \<Rightarrow> date \<Rightarrow> date \<Rightarrow> int option" where
  "differenceInCalendarDays tz (Some l) (Some r) = Some (localDay tz l - localDay tz r)"
| "differenceInCalendarDays tz _ _ = None"

subsection \<open>Date keys\<close>

text \<open>The proleptic Gregorian calendar that \<^verbatim>\<open>Date\<close> uses: year, month and day of
  the month of a day number, the day number of a year, month and day, and leap years.
  Year 0 is the year before year 1.\<close>

definition leapYear :: "int \<Rightarrow> bool" where
  "leapYear y = (y mod 4 = 0 \<and> (y mod 400 = 0 \<or> y mod 100 \<noteq> 0))"

definition civilOfDay :: "int \<Rightarrow> int \<times> int \<times> int" where
  "civilOfDay z =
     (let z' = z + 719468;
          era = z' div 146097;
          doe = z' mod 146097;
          yoe = (doe - doe div 1460 + doe div 36524 - doe div 146096) div 365;
          doy = doe - (365 * yoe + yoe div 4 - yoe div 100);
          mp = (5 * doy + 2) div 153;
          d = doy - (153 * mp + 2) div 5 + 1;
          m = (if mp < 10 then mp + 3 else mp - 9);
          y = yoe + era * 400 + (if m \<le> 2 then 1 else 0)
      in (y, m, d))"

definition dayOfCivil :: "int \<Rightarrow> int \<Rightarrow> int \<Rightarrow> int" where
  "dayOfCivil y m d =
     (let y' = y - (if m \<le> 2 then 1 else 0);
          era = y' div 400;
          yoe = y' mod 400;
          doy = (153 * (if m > 2 then m - 3 else m + 9) + 2) div 5 + d - 1;
          doe = yoe * 365 + yoe div 4 - yoe div 100 + doy
      in era * 146097 + doe - 719468)"

text \<open>The first day of the year 0001 and the last day of the year 9999.\<close>

definition firstDay :: int where
  "firstDay = - 719162"

definition lastDay :: int where
  "lastDay = 2932896"

definition inYearsDay :: "int \<Rightarrow> bool" where
  "inYearsDay d = (firstDay \<le> d \<and> d \<le> lastDay)"

text \<open>The instant falls, in local time, in the years 0001 to 9999.\<close>

definition inYears :: "int \<Rightarrow> instant \<Rightarrow> bool" where
  "inYears tz t = inYearsDay (localDay tz t)"

text \<open>
  A \<^verbatim>\<open>yyyy-MM-dd\<close> string as date-fns prints it. \<open>DayKey d\<close> is the string of the
  calendar day \<open>d\<close>, a day of the year 1 or later: different days have different
  strings, and from the year 10000 on the year has more than four digits.
  \<open>Feb29Key y\<close> is the string of year \<open>y\<close>, month 02 and day 29 for a year that has no
  29 February.
\<close>

datatype dayKey = DayKey int | Feb29Key int

text \<open>
  The key that date-fns prints for a day. Its \<^verbatim>\<open>yyyy\<close> prints the year \<open>y\<close> itself
  when \<open>y > 0\<close> and \<open>1 - y\<close> otherwise, so a day of a year before the year 1 gets the
  key of the same month and day of the year \<open>1 - y\<close>.
\<close>

definition keyOfDay :: "int \<Rightarrow> dayKey" where
  "keyOfDay d =
     (if firstDay \<le> d then DayKey d
      else (case civilOfDay d of
              (y, m, dd) \<Rightarrow>
                if m = 2 \<and> dd = 29 \<and> \<not> leapYear (1 - y) then Feb29Key (1 - y)
                else DayKey (dayOfCivil (1 - y) m dd)))"

text \<open>date-fns \<^verbatim>\<open>format(date, "yyyy-MM-dd")\<close>: throws a RangeError on the Invalid
  Date.\<close>

fun format :: "int \<Rightarrow> date \<Rightarrow> error + dayKey" where
  "format tz None = Inl RangeError"
| "format tz (Some t) = Inr (keyOfDay (localDay tz t))"

text \<open>
  \<^verbatim>\<open>new Date(`${key}T00:00:00`)\<close>: a date-time without offset is local time. A key
  with a year of more than four digits is no date-time string, and the result is the
  Invalid Date. For day 29 of a February that has none, the result is left to the engine:
  V8, followed here, carries over to 1 March; others give the Invalid Date. (The keys that
  \<open>keyOfDay\<close> gives name days of the year 1 or later, so that of the two bounds in
  \<open>inYearsDay\<close> only the upper one ever fails here.)
\<close>

definition dateOfKey :: "int \<Rightarrow> dayKey \<Rightarrow> date" where
  "dateOfKey tz key =
     (case key of
        DayKey d \<Rightarrow> if inYearsDay d then Some (localMidnight tz d) else None
      | Feb29Key y \<Rightarrow>
          if inYearsDay (dayOfCivil y 3 1) then Some (localMidnight tz (dayOfCivil y 3 1))
          else None)"

text \<open>
  A JavaScript number, as far as the reminder check looks at it: NaN, an infinity, or a
  finite number given by its integer part (\<^verbatim>\<open>setHours\<close> truncates its arguments).
  \<^verbatim>\<open>Number(s)\<close> itself is a parameter \<open>num\<close> of the reminder check.
\<close>

datatype number = NaN | Infinite | Finite int

text \<open>\<^verbatim>\<open>Number.isNaN(x)\<close> does not coerce: \<^verbatim>\<open>undefined\<close> (\<open>None\<close>) is not NaN.\<close>

fun isNaN :: "number option \<Rightarrow> bool" where
  "isNaN (Some NaN) = True"
| "isNaN _ = False"

text \<open>\<^verbatim>\<open>date.setHours(hours, minutes, 0, 0)\<close> in local time: hours and minutes out of
  their usual range carry over; an argument that is not a finite number
  (\<^verbatim>\<open>undefined\<close> becomes NaN) gives the Invalid Date.\<close>

fun setHours :: "int \<Rightarrow> date \<Rightarrow> number option \<Rightarrow> number option \<Rightarrow> date" where
  "setHours tz (Some t) (Some (Finite h)) (Some (Finite m)) =
     Some (localMidnight tz (localDay tz t) + h * 3600000 + m * 60000)"
| "setHours tz _ _ _ = None"

text \<open>\<^verbatim>\<open>s.split(":")\<close>: always at least one part.\<close>

fun splitString :: "char \<Rightarrow> string \<Rightarrow> string list" where
  "splitString c [] = [[]]"
| "splitString c (x # xs) =
     (if x = c then [] # splitString c xs
      else (case splitString c xs of
              [] \<Rightarrow> [[x]]
            | p # ps \<Rightarrow> (x # p) # ps))"

text \<open>Array destructuring \<^verbatim>\<open>[hours, minutes] = parts\<close>: a missing element is
  \<^verbatim>\<open>undefined\<close>.\<close>

fun element :: "'a list \<Rightarrow> nat \<Rightarrow> 'a option" where
  "element [] n = None"
| "element (x # xs) 0 = Some x"
| "element (x # xs) (Suc n) = element xs n"

text \<open>\<^verbatim>\<open>s.trim()\<close> strips the white space and line terminators of ECMAScript from
  both ends: U+0009 to U+000D, U+0020, U+00A0, U+1680, U+2000 to U+200A, U+2028, U+2029,
  U+202F, U+205F, U+3000 and U+FEFF, each one code unit.\<close>

definition isWhiteSpace :: "nat \<Rightarrow> bool" where
  "isWhiteSpace c =
     ((0x09 \<le> c \<and> c \<le> 0x0D) \<or> c = 0x20 \<or> c = 0xA0 \<or> c = 0x1680
      \<or> (0x2000 \<le> c \<and> c \<le> 0x200A) \<or> c = 0x2028 \<or> c = 0x2029 \<or> c = 0x202F
      \<or> c = 0x205F \<or> c = 0x3000 \<or> c = 0xFEFF)"

definition trim :: "utf16 \<Rightarrow> utf16" where
  "trim s = dropWhile isWhiteSpace (rev (dropWhile isWhiteSpace (rev s)))"

text \<open>\<^verbatim>\<open>xs.map(f)\<close> with a callback that may throw: the first exception ends the
  map.\<close>

fun mapE :: "('a \<Rightarrow> error + 'b) \<Rightarrow> 'a list \<Rightarrow> error + 'b list" where
  "mapE f [] = Inr []"
| "mapE f (x # xs) =
     (case f x of
        Inl e \<Rightarrow> Inl e
      | Inr y \<Rightarrow> (case mapE f xs of Inl e \<Rightarrow> Inl e | Inr ys \<Rightarrow> Inr (y # ys)))"

section \<open>The habit store\<close>

text \<open>The type \<^verbatim>\<open>Habit\<close>. The field \<^verbatim>\<open>id\<close> is \<open>idH\<close> here. The type parameter is the
  type of \<^verbatim>\<open>history\<close>: a list in the running program, possibly absent in the stored
  blob.\<close>

record 'h habitOf =
  idH :: string
  name :: utf16
  reminderTime :: "string option"
  createdAt :: isoString
  history :: 'h
  streak :: int
  longestStreak :: int
  lastCompleted :: "isoString option"
  reminderLastNotified :: "dayKey option"

type_synonym habit = "isoString list habitOf"
type_synonym storedHabit = "isoString list option habitOf"

text \<open>\<^verbatim>\<open>createHabit\<close>; the results of \<^verbatim>\<open>crypto.randomUUID()\<close> and of
  \<^verbatim>\<open>new Date()\<close> are the arguments \<open>uuid\<close> and \<open>now\<close>.\<close>

definition createHabit :: "string \<Rightarrow> instant \<Rightarrow> utf16 \<Rightarrow> string option \<Rightarrow> habit" where
  "createHabit uuid now nm rt =
     \<lparr> idH = uuid, name = trim nm, reminderTime = rt, createdAt = ISO now,
       history = [], streak = 0, longestStreak = 0, lastCompleted = None,
       reminderLastNotified = None \<rparr>"

text \<open>The filter of \<^verbatim>\<open>uniqueHistory\<close> with its set \<^verbatim>\<open>seen\<close>: the first occurrence
  of a key stays.\<close>

fun filterSeen :: "'a set \<Rightarrow> 'a list \<Rightarrow> 'a list" where
  "filterSeen seen [] = []"
| "filterSeen seen (key # keys) =
     (if key \<in> seen then filterSeen seen keys
      else key # filterSeen (insert key seen) keys)"

definition uniqueHistory :: "int \<Rightarrow> isoString list \<Rightarrow> error + isoString list" where
  "uniqueHistory tz hist =
     (case mapE (\<lambda>iso. format tz (startOfDay tz (newDate iso))) hist of
        Inl e \<Rightarrow> Inl e
      | Inr keys \<Rightarrow> mapE (\<lambda>key. toISOString (dateOfKey tz key)) (filterSeen {} keys))"

definition hasCompletedToday :: "int \<Rightarrow> instant \<Rightarrow> habit \<Rightarrow> bool" where
  "hasCompletedToday tz now h = list_ex (\<lambda>iso. isToday tz now (newDate iso)) (history h)"

text \<open>\<^verbatim>\<open>handleAddHabit\<close>, on the form fields \<open>nm\<close> and \<open>time\<close> and the list
  \<open>current\<close>; it returns the new list and the new form fields. An empty string is falsy,
  so \<^verbatim>\<open>time || null\<close> is \<open>None\<close> for the empty time field.\<close>

definition handleAddHabit ::
  "string \<Rightarrow> instant \<Rightarrow> utf16 \<Rightarrow> string \<Rightarrow> habit list \<Rightarrow> habit list \<times> utf16 \<times> string" where
  "handleAddHabit uuid now nm time current =
     (if trim nm = [] then (current, nm, time)
      else
        let habit = createHabit uuid now nm (if time = [] then None else Some time)
        in ([habit] @ current, [], []))"

text \<open>The callback that \<^verbatim>\<open>completeHabit\<close> maps over the list. \<open>now\<close> is the
  clock read by \<^verbatim>\<open>new Date()\<close>. \<^verbatim>\<open>difference\<close> is \<^verbatim>\<open>null\<close> without a
  last date and NaN for an invalid one, both \<open>None\<close> here: neither is \<^verbatim>\<open>=== 1\<close>.\<close>

definition completeCallback :: "int \<Rightarrow> instant \<Rightarrow> string \<Rightarrow> habit \<Rightarrow> error + habit" where
  "completeCallback tz now habitId habit =
     (let today = startOfDay tz (Some now) in
      case toISOString today of
        Inl e \<Rightarrow> Inl e
      | Inr todayIso \<Rightarrow>
          if idH habit \<noteq> habitId then Inr habit
          else if list_ex (\<lambda>iso. isSameDay tz (newDate iso) today) (history habit)
          then Inr habit
          else
            let lastDate = (case lastCompleted habit of
                              None \<Rightarrow> None
                            | Some lc \<Rightarrow> Some (startOfDay tz (newDate lc)))
            in (case uniqueHistory tz (history habit @ [todayIso]) of
                  Inl e \<Rightarrow> Inl e
                | Inr newHistory \<Rightarrow>
                    let difference = (case lastDate of
                                        None \<Rightarrow> None
                                      | Some ld \<Rightarrow> differenceInCalendarDays tz today ld);
                        continuing = (difference = Some 1);
                        streak' = (if continuing then streak habit + 1 else 1);
                        longestStreak' = max streak' (longestStreak habit)
                    in Inr (habit\<lparr> history := newHistory, streak := streak',
                                    longestStreak := longestStreak',
                                    lastCompleted := Some todayIso \<rparr>)))"

definition completeHabit :: "int \<Rightarrow> instant \<Rightarrow> string \<Rightarrow> habit list \<Rightarrow> error + habit list" where
  "completeHabit tz now habitId current = mapE (completeCallback tz now habitId) current"

definition resetCallback :: "string \<Rightarrow> habit \<Rightarrow> habit" where
  "resetCallback habitId habit =
     (if idH habit = habitId
      then habit\<lparr> history := [], streak := 0, longestStreak := 0, lastCompleted := None,
                  reminderLastNotified := None \<rparr>
      else habit)"

definition resetHabit :: "string \<Rightarrow> habit list \<Rightarrow> habit list" where
  "resetHabit habitId current = map (resetCallback habitId) current"

subsection \<open>Load\<close>

text \<open>What \<^verbatim>\<open>localStorage.getItem\<close> and \<^verbatim>\<open>JSON.parse\<close> make of the stored slot:
  nothing stored (or the empty string), a text that \<^verbatim>\<open>JSON.parse\<close> rejects, or a
  list of habits whose \<^verbatim>\<open>history\<close> may be absent.\<close>

datatype blob = NoBlob | Unparseable | Parsed "storedHabit list"

text \<open>\<^verbatim>\<open>habit.history ?? []\<close>, and then
  \<^verbatim>\<open>{ ...habit, history: uniqueHistory(habit.history ?? []) }\<close>.\<close>

definition storedHistory :: "storedHabit \<Rightarrow> isoString list" where
  "storedHistory habit = (case history habit of None \<Rightarrow> [] | Some hist \<Rightarrow> hist)"

definition loadCallback :: "int \<Rightarrow> storedHabit \<Rightarrow> error + habit" where
  "loadCallback tz habit =
     (case uniqueHistory tz (storedHistory habit) of
        Inl e \<Rightarrow> Inl e
      | Inr hist \<Rightarrow>
          Inr \<lparr> idH = idH habit, name = name habit, reminderTime = reminderTime habit,
                createdAt = createdAt habit, history = hist, streak = streak habit,
                longestStreak = longestStreak habit, lastCompleted = lastCompleted habit,
                reminderLastNotified = reminderLastNotified habit \<rparr>)"

text \<open>The load effect: the list starts empty (\<^verbatim>\<open>useState([])\<close>), and any exception
  inside the \<^verbatim>\<open>try\<close> is caught and logged, so that \<^verbatim>\<open>setHabits\<close> is not
  reached.\<close>

definition load :: "int \<Rightarrow> blob \<Rightarrow> habit list" where
  "load tz stored =
     (case stored of
        NoBlob \<Rightarrow> []
      | Unparseable \<Rightarrow> []
      | Parsed parsed \<Rightarrow>
          (case mapE (loadCallback tz) parsed of
             Inl e \<Rightarrow> []
           | Inr habits \<Rightarrow> habits))"

section \<open>The reminder engine\<close>

text \<open>The updater that the interval callback hands to \<^verbatim>\<open>setHabits\<close> maps a callback
  over the list. Here is that callback for one habit: the habits it pushes on
  \<^verbatim>\<open>triggered\<close>, and the habit it returns. \<open>now\<close> is the clock as the interval
  callback read it.\<close>

definition reminderCallback ::
  "(string \<Rightarrow> number) \<Rightarrow> int \<Rightarrow> instant \<Rightarrow> habit \<Rightarrow> habit list \<times> habit" where
  "reminderCallback num tz now habit =
     (case format tz (Some now) of
        Inl e \<Rightarrow> ([], habit)
      | Inr todayKey \<Rightarrow>
     (case reminderTime habit of
        None \<Rightarrow> ([], habit)
      | Some rt \<Rightarrow>
          if rt = [] then ([], habit)
          else
            let parts = map num (splitString CHR '':'' rt);
                hours = element parts 0;
                minutes = element parts 1
            in if isNaN hours \<or> isNaN minutes then ([], habit)
               else
                 let target = setHours tz (Some now) hours minutes;
                     diff = (case (getTime (Some now), getTime target) of
                               (Some a, Some b) \<Rightarrow> Some (a - b)
                             | _ \<Rightarrow> None);
                     withinWindow = (case diff of
                                       None \<Rightarrow> False
                                     | Some d \<Rightarrow> d \<ge> 0 \<and> d \<le> 60 * 1000);
                     alreadyNotifiedToday = (reminderLastNotified habit = Some todayKey);
                     alreadyCompletedToday = hasCompletedToday tz now habit
                 in if withinWindow \<and> \<not> alreadyNotifiedToday \<and> \<not> alreadyCompletedToday
                    then ([habit], habit\<lparr> reminderLastNotified := Some todayKey \<rparr>)
                    else ([], habit)))"

text \<open>\<^verbatim>\<open>current.map(...)\<close> of the interval effect: for each habit, what the callback
  pushed and what it returned.\<close>

definition reminderPass ::
  "(string \<Rightarrow> number) \<Rightarrow> int \<Rightarrow> instant \<Rightarrow> habit list \<Rightarrow> (habit list \<times> habit) list" where
  "reminderPass num tz now current = map (reminderCallback num tz now) current"

record toast =
  toastId :: string
  message :: utf16

record notification =
  title :: string
  body :: utf16
  tag :: string

datatype permission = Default | Granted | Denied | Unsupported

text \<open>
  The array \<^verbatim>\<open>triggered\<close> is filled by the updater, and the interval callback reads
  \<^verbatim>\<open>triggered.length\<close> right after \<^verbatim>\<open>setHabits\<close> has returned. React calls an
  updater inside \<^verbatim>\<open>setHabits\<close> only when it has no update pending for the component;
  otherwise it queues it and calls it when it next renders the component, after the
  interval callback has returned. Which of the two React does on a tick is not decided by
  the interval callback: it is an input of the tick.
\<close>

datatype updaterRun = DuringCall | AtNextRender

text \<open>One tick of the interval: the new list, the toast set (if any) and the native
  notification constructed (if any). The new list is what the updater returns, whenever
  React calls it; \<^verbatim>\<open>triggered\<close>, where the interval callback reads it, holds what
  the updater pushed only if the updater has run by then. \<open>uuid\<close> is the result of
  \<^verbatim>\<open>crypto.randomUUID()\<close> for the toast.\<close>

definition reminderTick ::
  "(string \<Rightarrow> number) \<Rightarrow> int \<Rightarrow> permission \<Rightarrow> updaterRun \<Rightarrow> string \<Rightarrow> instant
     \<Rightarrow> habit list \<Rightarrow> habit list \<times> toast option \<times> notification option" where
  "reminderTick num tz notificationPermission run uuid now current =
     (let results = reminderPass num tz now current;
          habits' = map snd results;
          triggered = (case run of
                         DuringCall \<Rightarrow> concat (map fst results)
                       | AtNextRender \<Rightarrow> [])
      in case triggered of
           [] \<Rightarrow> (habits', None, None)
         | targetHabit # _ \<Rightarrow>
             let msg = lit ''Time for '' @ [0x22] @ name targetHabit @ [0x22]
             in (habits',
                 Some \<lparr> toastId = uuid, message = msg \<rparr>,
                 if notificationPermission = Granted
                 then Some \<lparr> title = ''HabitPulse Reminder'', body = msg, tag = idH targetHabit \<rparr>
                 else None))"

section \<open>Notions of the specification\<close>

text \<open>The instants that the entries of a history parse to, the unparseable entries left
  out, and the local calendar days they fall on.\<close>

fun instantsOf :: "isoString list \<Rightarrow> instant list" where
  "instantsOf [] = []"
| "instantsOf (ISO t # isos) = t # instantsOf isos"
| "instantsOf (Garbage # isos) = instantsOf isos"

definition completedDays :: "int \<Rightarrow> isoString list \<Rightarrow> int list" where
  "completedDays tz hist = map (localDay tz) (instantsOf hist)"

text \<open>The timestamp of the local midnight of a day.\<close>

definition midnightIso :: "int \<Rightarrow> int \<Rightarrow> isoString" where
  "midnightIso tz d = ISO (localMidnight tz d)"

text \<open>A timestamp that parses, to an instant of the years 0001 to 9999 in local time.\<close>

definition validStamp :: "int \<Rightarrow> isoString \<Rightarrow> bool" where
  "validStamp tz x = (case newDate x of None \<Rightarrow> False | Some t \<Rightarrow> inYears tz t)"

text \<open>Every entry of the history is such a timestamp. The store keeps it so: see
  \<open>validHistory_load\<close> and the lemmas after it.\<close>

definition validHistory :: "int \<Rightarrow> habit \<Rightarrow> bool" where
  "validHistory tz h = list_all (validStamp tz) (history h)"

text \<open>The previous last-completed day, if there is one.\<close>

definition lastCompletedDay :: "int \<Rightarrow> habit \<Rightarrow> int option" where
  "lastCompletedDay tz h =
     (case lastCompleted h of
        None \<Rightarrow> None
      | Some Garbage \<Rightarrow> None
      | Some (ISO t) \<Rightarrow> Some (localDay tz t))"

text \<open>The streak rule in the words of the specification: one more when the previous
  last-completed day is the day before today, 1 otherwise.\<close>

definition nextStreak :: "int \<Rightarrow> instant \<Rightarrow> habit \<Rightarrow> int" where
  "nextStreak tz now h =
     (if lastCompletedDay tz h = Some (localDay tz now - 1) then streak h + 1 else 1)"

text \<open>Complete in the words of the specification: nothing for another habit or one
  already completed today; otherwise today joins the history, kept at one midnight entry per
  day, and streak, longest streak and last-completed follow.\<close>

definition completed :: "int \<Rightarrow> instant \<Rightarrow> string \<Rightarrow> habit \<Rightarrow> habit" where
  "completed tz now habitId h =
     (if idH h \<noteq> habitId \<or> hasCompletedToday tz now h then h
      else h\<lparr> history := map (midnightIso tz)
                             (filterSeen {} (completedDays tz (history h) @ [localDay tz now])),
               streak := nextStreak tz now h,
               longestStreak := max (nextStreak tz now h) (longestStreak h),
               lastCompleted := Some (midnightIso tz (localDay tz now)) \<rparr>)"

text \<open>Complete, called once at each of the given instants in turn.\<close>

fun completeAll :: "int \<Rightarrow> string \<Rightarrow> instant list \<Rightarrow> habit list \<Rightarrow> error + habit list" where
  "completeAll tz habitId [] hs = Inr hs"
| "completeAll tz habitId (now # nows) hs =
     (case completeHabit tz now habitId hs of
        Inl e \<Rightarrow> Inl e
      | Inr hs' \<Rightarrow> completeAll tz habitId nows hs')"

text \<open>The reminder time parses to a numeric hour and minute: it is there, and
  \<^verbatim>\<open>Number\<close> makes finite numbers of its first two parts between colons.\<close>

definition parsedTime :: "(string \<Rightarrow> number) \<Rightarrow> string option \<Rightarrow> (int \<times> int) option" where
  "parsedTime num rt =
     (case rt of
        None \<Rightarrow> None
      | Some s \<Rightarrow>
          (case map num (splitString CHR '':'' s) of
             Finite h # Finite m # _ \<Rightarrow> Some (h, m)
           | _ \<Rightarrow> None))"

text \<open>Today's target instant: the given hour and minute of the local day of \<open>now\<close>.\<close>

definition targetInstant :: "int \<Rightarrow> instant \<Rightarrow> int \<Rightarrow> int \<Rightarrow> instant" where
  "targetInstant tz now h m = localMidnight tz (localDay tz now) + h * 3600000 + m * 60000"

text \<open>A habit qualifies on a tick, in the words of the specification.\<close>

definition qualifies :: "(string \<Rightarrow> number) \<Rightarrow> int \<Rightarrow> instant \<Rightarrow> habit \<Rightarrow> bool" where
  "qualifies num tz now habit =
     (case parsedTime num (reminderTime habit) of
        None \<Rightarrow> False
      | Some (h, m) \<Rightarrow>
          0 \<le> now - targetInstant tz now h m \<and> now - targetInstant tz now h m \<le> 60000
          \<and> reminderLastNotified habit \<noteq> Some (keyOfDay (localDay tz now))
          \<and> \<not> hasCompletedToday tz now habit)"

text \<open>What happens to the store during a day, as far as claim C3 goes: reminder ticks
  and calls of Complete, each at its instant.\<close>

datatype dayEvent = Tick instant | Complete string instant

fun eventTime :: "dayEvent \<Rightarrow> instant" where
  "eventTime (Tick now) = now"
| "eventTime (Complete habitId now) = now"

text \<open>The number of ticks among the events at which the habit at position \<open>i\<close> of the
  store is pushed on \<^verbatim>\<open>triggered\<close>. A Complete that throws ends the run.\<close>

fun firings :: "(string \<Rightarrow> number) \<Rightarrow> int \<Rightarrow> nat \<Rightarrow> habit list \<Rightarrow> dayEvent list \<Rightarrow> nat" where
  "firings num tz i hs [] = 0"
| "firings num tz i hs (Tick now # events) =
     (if fst (reminderCallback num tz now (hs ! i)) = [] then 0 else 1)
       + firings num tz i (map snd (reminderPass num tz now hs)) events"
| "firings num tz i hs (Complete habitId now # events) =
     (case completeHabit tz now habitId hs of
        Inl e \<Rightarrow> 0
      | Inr hs' \<Rightarrow> firings num tz i hs' events)"

text \<open>\<^verbatim>\<open>Number\<close> on the strings of decimal digits, the empty string among them (which
  is 0); NaN stands for all other strings here. It agrees with \<^verbatim>\<open>Number\<close> on what a
  time input holds, and instantiates the parameter \<open>num\<close> in the examples.\<close>

definition decimalNumber :: "string \<Rightarrow> number" where
  "decimalNumber s =
     (if list_all (\<lambda>c. c \<in> set ''0123456789'') s
      then Finite (foldl (\<lambda>n c. 10 * n + (of_char c - 48)) 0 s)
      else NaN)"

section \<open>Calendar days, maps that may throw, and \<open>uniqueHistory\<close>\<close>

lemma localDay_localMidnight [simp]: "localDay tz (localMidnight tz d) = d"
  by (simp add: localDay_def localMidnight_def)

lemma localMidnight_eq_iff [simp]: "localMidnight tz a = localMidnight tz b \<longleftrightarrow> a = b"
  by (simp add: localMidnight_def)

lemma isSameDay_Some [simp]: "isSameDay tz (Some a) (Some b) \<longleftrightarrow> localDay tz a = localDay tz b"
  by (simp add: isSameDay_def)

lemma isSameDay_None [simp]: "isSameDay tz None b = False" "isSameDay tz a None = False"
  by (simp_all add: isSameDay_def split: option.splits)

lemma isSameDay_startOfDay [simp]: "isSameDay tz a (startOfDay tz b) = isSameDay tz a b"
  by (cases a; cases b) simp_all

lemma isSameDay_newDate:
  "isSameDay tz (newDate x) (Some now) \<longleftrightarrow> (\<exists>t. x = ISO t \<and> localDay tz t = localDay tz now)"
  by (cases x) simp_all

lemma set_instantsOf: "t \<in> set (instantsOf hist) \<longleftrightarrow> ISO t \<in> set hist"
  by (induction hist rule: instantsOf.induct) auto

lemma hasCompletedToday_iff:
  "hasCompletedToday tz now h \<longleftrightarrow> localDay tz now \<in> set (completedDays tz (history h))"
proof -
  have "hasCompletedToday tz now h \<longleftrightarrow> (\<exists>t. ISO t \<in> set (history h) \<and> localDay tz t = localDay tz now)"
    by (auto simp: hasCompletedToday_def isToday_def list_ex_iff isSameDay_newDate)
  also have "\<dots> \<longleftrightarrow> (\<exists>t \<in> set (instantsOf (history h)). localDay tz t = localDay tz now)"
    by (simp add: set_instantsOf Bex_def)
  also have "\<dots> \<longleftrightarrow> localDay tz now \<in> set (completedDays tz (history h))"
    unfolding completedDays_def set_map image_iff by metis
  finally show ?thesis .
qed

lemma mapE_map: "(\<And>x. x \<in> set xs \<Longrightarrow> f x = Inr (g x)) \<Longrightarrow> mapE f xs = Inr (map g xs)"
  by (induction xs) simp_all

lemma mapE_Inl: "x \<in> set xs \<Longrightarrow> f x = Inl e \<Longrightarrow> mapE f xs = Inl RangeError"
proof (induction xs)
  case Nil
  then show ?case by simp
next
  case (Cons a xs)
  then show ?case
    by (cases "f a"; cases "mapE f xs") (auto intro: error.exhaust)
qed

lemma mapE_Inr_D:
  "mapE f xs = Inr ys \<Longrightarrow> length ys = length xs \<and> (\<forall>i<length xs. f (xs ! i) = Inr (ys ! i))"
proof (induction xs arbitrary: ys)
  case Nil
  then show ?case by simp
next
  case (Cons a xs)
  then obtain y zs where y: "f a = Inr y" and zs: "mapE f xs = Inr zs" and ys: "ys = y # zs"
    by (auto split: sum.splits)
  from Cons.IH [OF zs] show ?case
    by (auto simp: ys y nth_Cons split: nat.splits)
qed

lemma validStamp_iff: "validStamp tz x \<longleftrightarrow> (\<exists>t. x = ISO t \<and> inYears tz t)"
  by (cases x) (simp_all add: validStamp_def)

lemma validStamp_midnightIso [simp]: "validStamp tz (midnightIso tz d) = inYearsDay d"
  by (simp add: validStamp_def midnightIso_def inYears_def)

lemma valid_instantsOf: "\<forall>x\<in>set hist. newDate x \<noteq> None \<Longrightarrow> map ISO (instantsOf hist) = hist"
  by (induction hist rule: instantsOf.induct) simp_all

lemma validStamp_instantsOf:
  "\<forall>x\<in>set hist. validStamp tz x \<Longrightarrow> map ISO (instantsOf hist) = hist"
  by (rule valid_instantsOf) (auto simp: validStamp_iff)

lemma validStamp_days:
  "\<forall>x\<in>set hist. validStamp tz x \<Longrightarrow> \<forall>d\<in>set (completedDays tz hist). inYearsDay d"
  by (auto simp: completedDays_def set_instantsOf validStamp_iff inYears_def)

lemma keyOfDay_inYears: "inYearsDay d \<Longrightarrow> keyOfDay d = DayKey d"
  by (simp add: keyOfDay_def inYearsDay_def)

lemma dateOfKey_inYears: "inYearsDay d \<Longrightarrow> dateOfKey tz (DayKey d) = Some (localMidnight tz d)"
  by (simp add: dateOfKey_def)

lemma keys_parse:
  "\<forall>x\<in>set hist. newDate x \<noteq> None \<Longrightarrow>
   mapE (\<lambda>x. format tz (startOfDay tz (newDate x))) hist
     = Inr (map keyOfDay (completedDays tz hist))"
  by (induction hist rule: instantsOf.induct) (simp_all add: completedDays_def)

lemma keys_valid:
  assumes "\<forall>x\<in>set hist. validStamp tz x"
  shows "mapE (\<lambda>x. format tz (startOfDay tz (newDate x))) hist
           = Inr (map DayKey (completedDays tz hist))"
proof -
  have "\<forall>x\<in>set hist. newDate x \<noteq> None"
    using assms by (auto simp: validStamp_iff)
  moreover have "map keyOfDay (completedDays tz hist) = map DayKey (completedDays tz hist)"
    using validStamp_days [OF assms] by (simp add: keyOfDay_inYears)
  ultimately show ?thesis
    by (simp add: keys_parse)
qed

lemma filterSeen_map:
  "inj f \<Longrightarrow> filterSeen (f ` seen) (map f ks) = map f (filterSeen seen ks)"
proof (induction ks arbitrary: seen)
  case Nil
  then show ?case by simp
next
  case (Cons k ks)
  from Cons.IH [OF Cons.prems, of "insert k seen"] Cons.IH [OF Cons.prems, of seen]
  show ?case
    using Cons.prems by (simp add: inj_image_mem_iff)
qed

lemma filterSeen_DayKey: "filterSeen {} (map DayKey ds) = map DayKey (filterSeen {} ds)"
  using filterSeen_map [of DayKey "{}" ds] by (simp add: inj_on_def)

lemma set_filterSeen: "set (filterSeen seen ks) = set ks - seen"
  by (induction ks arbitrary: seen) auto

lemma uniqueHistory_valid:
  assumes "\<forall>x\<in>set hist. validStamp tz x"
  shows "uniqueHistory tz hist = Inr (map (midnightIso tz) (filterSeen {} (completedDays tz hist)))"
proof -
  let ?ds = "filterSeen {} (completedDays tz hist)"
  have "\<forall>d\<in>set ?ds. inYearsDay d"
    using validStamp_days [OF assms] by (simp add: set_filterSeen)
  then have "\<And>k. k \<in> set (map DayKey ?ds) \<Longrightarrow>
      toISOString (dateOfKey tz k) = Inr (case k of DayKey d \<Rightarrow> midnightIso tz d | Feb29Key y \<Rightarrow> Garbage)"
    by (auto simp: dateOfKey_inYears midnightIso_def)
  then have "mapE (\<lambda>key. toISOString (dateOfKey tz key)) (map DayKey ?ds)
      = Inr (map (\<lambda>k. case k of DayKey d \<Rightarrow> midnightIso tz d | Feb29Key y \<Rightarrow> Garbage) (map DayKey ?ds))"
    by (rule mapE_map)
  then show ?thesis
    by (simp add: uniqueHistory_def keys_valid [OF assms] filterSeen_DayKey comp_def)
qed

lemma uniqueHistory_invalid:
  assumes "x \<in> set hist" and "newDate x = None"
  shows "uniqueHistory tz hist = Inl RangeError"
proof -
  have "format tz (startOfDay tz (newDate x)) = Inl RangeError"
    using assms(2) by simp
  from mapE_Inl [where f = "\<lambda>x. format tz (startOfDay tz (newDate x))", OF assms(1) this] show ?thesis
    by (simp add: uniqueHistory_def)
qed

lemma uniqueHistory_beyond:
  assumes "ISO t \<in> set hist" and "lastDay < localDay tz t"
  shows "uniqueHistory tz hist = Inl RangeError"
proof (cases "mapE (\<lambda>x. format tz (startOfDay tz (newDate x))) hist")
  case (Inl e)
  then show ?thesis
    by (cases e) (simp add: uniqueHistory_def)
next
  case (Inr keys)
  from assms(1) obtain i where i: "i < length hist" "hist ! i = ISO t"
    by (auto simp: in_set_conv_nth)
  with mapE_Inr_D [OF Inr] have "length keys = length hist"
    and "keys ! i = keyOfDay (localDay tz t)"
    by auto
  moreover have "keyOfDay (localDay tz t) = DayKey (localDay tz t)"
    using assms(2) by (simp add: keyOfDay_def firstDay_def lastDay_def)
  ultimately have "DayKey (localDay tz t) \<in> set (filterSeen {} keys)"
    using i(1) by (auto simp: set_filterSeen in_set_conv_nth)
  moreover have "toISOString (dateOfKey tz (DayKey (localDay tz t))) = Inl RangeError"
    using assms(2) by (simp add: dateOfKey_def inYearsDay_def)
  ultimately have "mapE (\<lambda>key. toISOString (dateOfKey tz key)) (filterSeen {} keys) = Inl RangeError"
    by (rule mapE_Inl [where f = "\<lambda>key. toISOString (dateOfKey tz key)"])
  then show ?thesis
    by (simp add: uniqueHistory_def Inr)
qed

lemma distinct_filterSeen: "distinct (filterSeen seen ks)"
  by (induction ks arbitrary: seen) (auto simp: set_filterSeen)

lemma length_filterSeen: "length (filterSeen seen ks) \<le> length ks"
  by (induction ks arbitrary: seen) (auto intro: le_SucI)

lemma filterSeen_distinct: "distinct ks \<Longrightarrow> set ks \<inter> seen = {} \<Longrightarrow> filterSeen seen ks = ks"
  by (induction ks arbitrary: seen) auto

lemma filterSeen_append:
  "filterSeen seen (ks @ [k]) = filterSeen seen ks @ (if k \<in> seen \<union> set ks then [] else [k])"
  by (induction ks arbitrary: seen) auto

lemma instantsOf_append: "instantsOf (xs @ ys) = instantsOf xs @ instantsOf ys"
  by (induction xs rule: instantsOf.induct) simp_all

lemma completedDays_midnight: "completedDays tz (map (midnightIso tz) ks) = ks"
  by (induction ks) (simp_all add: completedDays_def midnightIso_def)


section \<open>Complete\<close>

lemma sameDay_check:
  "list_ex (\<lambda>x. isSameDay tz (newDate x) (startOfDay tz (Some now))) (history h)
     = hasCompletedToday tz now h"
  by (simp add: hasCompletedToday_def isToday_def del: startOfDay.simps)

lemma continuing_iff:
  "((case (case lastCompleted h of None \<Rightarrow> None | Some lc \<Rightarrow> Some (startOfDay tz (newDate lc))) of
       None \<Rightarrow> None
     | Some ld \<Rightarrow> differenceInCalendarDays tz (Some (localMidnight tz (localDay tz now))) ld) = Some 1)
   \<longleftrightarrow> lastCompletedDay tz h = Some (localDay tz now - 1)"
  by (auto simp: lastCompletedDay_def split: option.splits isoString.splits)

lemma completedDays_append:
  "completedDays tz (hist @ [ISO t]) = completedDays tz hist @ [localDay tz t]"
  by (simp add: completedDays_def instantsOf_append)

lemma completeCallback_result:
  "completeCallback tz now habitId h =
     (if idH h \<noteq> habitId \<or> hasCompletedToday tz now h then Inr h
      else case uniqueHistory tz (history h @ [midnightIso tz (localDay tz now)]) of
             Inl e \<Rightarrow> Inl e
           | Inr newHistory \<Rightarrow>
               Inr (h\<lparr> history := newHistory, streak := nextStreak tz now h,
                       longestStreak := max (nextStreak tz now h) (longestStreak h),
                       lastCompleted := Some (midnightIso tz (localDay tz now)) \<rparr>))"
proof -
  let ?today = "localMidnight tz (localDay tz now)"
  have s: "list_ex (\<lambda>x. isSameDay tz (newDate x) (Some ?today)) (history h)
             = hasCompletedToday tz now h"
    using sameDay_check [where tz = tz and now = now and h = h] by simp
  have c: "((case (case lastCompleted h of None \<Rightarrow> None | Some lc \<Rightarrow> Some (startOfDay tz (newDate lc))) of
       None \<Rightarrow> None
     | Some ld \<Rightarrow> differenceInCalendarDays tz (Some ?today) ld) = Some 1)
   \<longleftrightarrow> lastCompletedDay tz h = Some (localDay tz now - 1)"
    by (rule continuing_iff)
  show ?thesis
    unfolding completeCallback_def
    by (simp add: Let_def s c nextStreak_def midnightIso_def split: sum.splits)
qed

lemma completeCallback_valid:
  assumes "validHistory tz h" and "inYears tz now"
  shows "completeCallback tz now habitId h = Inr (completed tz now habitId h)"
proof -
  let ?today = "localMidnight tz (localDay tz now)"
  have v: "\<forall>x\<in>set (history h @ [ISO ?today]). validStamp tz x"
    using assms by (auto simp: validHistory_def list_all_iff inYears_def validStamp_def)
  have "uniqueHistory tz (history h @ [ISO ?today])
             = Inr (map (midnightIso tz)
                      (filterSeen {} (completedDays tz (history h) @ [localDay tz now])))"
    by (simp add: uniqueHistory_valid [OF v] completedDays_append)
  then show ?thesis
    by (simp add: completeCallback_result completed_def midnightIso_def)
qed

lemma completeCallback_noop:
  assumes "idH h \<noteq> habitId \<or> hasCompletedToday tz now h"
  shows "completeCallback tz now habitId h = Inr h"
  using assms by (auto simp: completeCallback_result)

lemma validHistory_completed:
  assumes "validHistory tz h" and "inYears tz now"
  shows "validHistory tz (completed tz now habitId h)"
proof -
  have "\<forall>d\<in>set (completedDays tz (history h)). inYearsDay d"
    using assms(1) by (intro validStamp_days) (simp add: validHistory_def list_all_iff)
  then show ?thesis
    using assms by (auto simp: completed_def validHistory_def list_all_iff set_filterSeen
        inYears_def)
qed

lemma completeHabit_valid:
  assumes "\<forall>h\<in>set hs. validHistory tz h" and "inYears tz now"
  shows "completeHabit tz now habitId hs = Inr (map (completed tz now habitId) hs)"
  unfolding completeHabit_def
  by (rule mapE_map) (simp add: assms completeCallback_valid)

lemma days_completed:
  assumes "idH h = habitId" and "\<not> hasCompletedToday tz now h"
  shows "set (completedDays tz (history (completed tz now habitId h)))
           = insert (localDay tz now) (set (completedDays tz (history h)))"
  using assms by (auto simp: completed_def completedDays_midnight set_filterSeen)

lemma lastCompletedDay_completed:
  assumes "idH h = habitId" and "\<not> hasCompletedToday tz now h"
  shows "lastCompletedDay tz (completed tz now habitId h) = Some (localDay tz now)"
  using assms by (simp add: completed_def lastCompletedDay_def midnightIso_def)

lemma streak_completed:
  assumes "idH h = habitId" and "\<not> hasCompletedToday tz now h"
  shows "streak (completed tz now habitId h) = nextStreak tz now h"
  using assms by (simp add: completed_def)

lemma idH_completed [simp]: "idH (completed tz now habitId h) = idH h"
  by (simp add: completed_def)


lemma completed_step:
  assumes "idH h = habitId" and "localDay tz now \<notin> set (completedDays tz (history h))"
  shows "idH (completed tz now habitId h) = habitId"
    and "streak (completed tz now habitId h) = nextStreak tz now h"
    and "lastCompletedDay tz (completed tz now habitId h) = Some (localDay tz now)"
    and "set (completedDays tz (history (completed tz now habitId h)))
           = insert (localDay tz now) (set (completedDays tz (history h)))"
  using assms
    streak_completed [of h habitId tz now]
    lastCompletedDay_completed [of h habitId tz now]
    days_completed [of h habitId tz now]
  by (simp_all add: hasCompletedToday_iff)

lemma valid_store_completed:
  "\<forall>h\<in>set hs. validHistory tz h \<Longrightarrow> inYears tz now \<Longrightarrow>
   \<forall>h\<in>set (map (completed tz now habitId) hs). validHistory tz h"
  by (simp add: validHistory_completed)

lemma completeAll_valid:
  "\<forall>h\<in>set hs. validHistory tz h \<Longrightarrow> \<forall>now\<in>set nows. inYears tz now \<Longrightarrow>
   completeAll tz habitId nows hs
     = Inr (foldl (\<lambda>hs now. map (completed tz now habitId) hs) hs nows)"
proof (induction nows arbitrary: hs)
  case Nil
  then show ?case by simp
next
  case (Cons now nows)
  from Cons.prems have n: "inYears tz now" and ns: "\<forall>now\<in>set nows. inYears tz now"
    by simp_all
  from Cons.IH [OF valid_store_completed [OF Cons.prems(1) n] ns] show ?case
    by (simp add: completeHabit_valid [OF Cons.prems(1) n])
qed

text \<open>
  Claim C1. In a store whose histories hold timestamps that parse, of the years 0001 to
  9999, and with the clock in these years, Complete on a habit not yet completed today
  returns, and the habit's streak becomes the previous streak plus 1 when the previous
  last-completed day is the day before today, and 1 otherwise (also when there is no
  previous completion, or one that does not parse). Hence completions on the days
  \<open>D\<close>, \<open>D + 1\<close>, \<open>D + 2\<close>, the habit having no entry on these days and \<open>D\<close> not continuing
  a run, leave the streak at 3, and completions on \<open>D\<close> and \<open>D + 2\<close> leave it at 1.
\<close>

theorem complete_streak_rule:
  assumes valid: "\<forall>h\<in>set hs. validHistory tz h"
    and i: "i < length hs"
    and target: "idH (hs ! i) = habitId"
  shows "(inYears tz now \<and> \<not> hasCompletedToday tz now (hs ! i) \<longrightarrow>
            (\<exists>hs'. completeHabit tz now habitId hs = Inr hs' \<and>
                   streak (hs' ! i) =
                     (if lastCompletedDay tz (hs ! i) = Some (localDay tz now - 1)
                      then streak (hs ! i) + 1 else 1)))
       \<and> (firstDay \<le> D \<and> D + 2 \<le> lastDay
            \<and> localDay tz t0 = D \<and> localDay tz t1 = D + 1 \<and> localDay tz t2 = D + 2
            \<and> D \<notin> set (completedDays tz (history (hs ! i)))
            \<and> D + 1 \<notin> set (completedDays tz (history (hs ! i)))
            \<and> D + 2 \<notin> set (completedDays tz (history (hs ! i)))
            \<and> lastCompletedDay tz (hs ! i) \<noteq> Some (D - 1) \<longrightarrow>
            (\<exists>hs'. completeAll tz habitId [t0, t1, t2] hs = Inr hs' \<and> streak (hs' ! i) = 3))
       \<and> (firstDay \<le> D \<and> D + 2 \<le> lastDay
            \<and> localDay tz t0 = D \<and> localDay tz t2 = D + 2
            \<and> D \<notin> set (completedDays tz (history (hs ! i)))
            \<and> D + 2 \<notin> set (completedDays tz (history (hs ! i))) \<longrightarrow>
            (\<exists>hs'. completeAll tz habitId [t0, t2] hs = Inr hs' \<and> streak (hs' ! i) = 1))"
proof (intro conjI impI)
  assume a: "inYears tz now \<and> \<not> hasCompletedToday tz now (hs ! i)"
  then have "streak (completed tz now habitId (hs ! i)) = nextStreak tz now (hs ! i)"
    using target by (intro streak_completed) simp_all
  then show "\<exists>hs'. completeHabit tz now habitId hs = Inr hs' \<and>
                   streak (hs' ! i) =
                     (if lastCompletedDay tz (hs ! i) = Some (localDay tz now - 1)
                      then streak (hs ! i) + 1 else 1)"
    using i a by (simp add: completeHabit_valid [OF valid] nextStreak_def)
next
  let ?h = "hs ! i"
  assume a: "firstDay \<le> D \<and> D + 2 \<le> lastDay
            \<and> localDay tz t0 = D \<and> localDay tz t1 = D + 1 \<and> localDay tz t2 = D + 2
            \<and> D \<notin> set (completedDays tz (history ?h))
            \<and> D + 1 \<notin> set (completedDays tz (history ?h))
            \<and> D + 2 \<notin> set (completedDays tz (history ?h))
            \<and> lastCompletedDay tz ?h \<noteq> Some (D - 1)"
  then have clock: "\<forall>now\<in>set [t0, t1, t2]. inYears tz now"
    by (simp add: inYears_def inYearsDay_def)
  let ?h1 = "completed tz t0 habitId ?h"
  let ?h2 = "completed tz t1 habitId ?h1"
  let ?h3 = "completed tz t2 habitId ?h2"
  have s1: "idH ?h1 = habitId" "streak ?h1 = 1" "lastCompletedDay tz ?h1 = Some D"
    "set (completedDays tz (history ?h1)) = insert D (set (completedDays tz (history ?h)))"
    using completed_step [of ?h habitId tz t0] target a by (simp_all add: nextStreak_def)
  have s2: "idH ?h2 = habitId" "streak ?h2 = 2" "lastCompletedDay tz ?h2 = Some (D + 1)"
    "set (completedDays tz (history ?h2)) = insert (D + 1) (set (completedDays tz (history ?h1)))"
    using completed_step [of ?h1 habitId tz t1] s1 a by (simp_all add: nextStreak_def)
  have s3: "streak ?h3 = 3"
    using completed_step(2) [of ?h2 habitId tz t2] s2 s1(4) a by (simp add: nextStreak_def)
  show "\<exists>hs'. completeAll tz habitId [t0, t1, t2] hs = Inr hs' \<and> streak (hs' ! i) = 3"
    using i s3 by (subst completeAll_valid [OF valid clock]) simp
next
  let ?h = "hs ! i"
  assume a: "firstDay \<le> D \<and> D + 2 \<le> lastDay
            \<and> localDay tz t0 = D \<and> localDay tz t2 = D + 2
            \<and> D \<notin> set (completedDays tz (history ?h))
            \<and> D + 2 \<notin> set (completedDays tz (history ?h))"
  then have clock: "\<forall>now\<in>set [t0, t2]. inYears tz now"
    by (simp add: inYears_def inYearsDay_def)
  let ?h1 = "completed tz t0 habitId ?h"
  let ?h3 = "completed tz t2 habitId ?h1"
  have s1: "idH ?h1 = habitId" "lastCompletedDay tz ?h1 = Some D"
    "set (completedDays tz (history ?h1)) = insert D (set (completedDays tz (history ?h)))"
    using completed_step [of ?h habitId tz t0] target a by simp_all
  have s3: "streak ?h3 = 1"
    using completed_step(2) [of ?h1 habitId tz t2] s1 a by (simp add: nextStreak_def)
  show "\<exists>hs'. completeAll tz habitId [t0, t2] hs = Inr hs' \<and> streak (hs' ! i) = 1"
    using i s3 by (subst completeAll_valid [OF valid clock]) simp
qed

theorem complete_streak_rule_witness:
  "validHistory 0 (createHabit ''u1'' 1704099000000 (lit ''Run'') None)
   \<and> inYears 0 1704099000000
   \<and> \<not> hasCompletedToday 0 1704099000000
         ([createHabit ''u1'' 1704099000000 (lit ''Run'') None] ! 0)
   \<and> (\<exists>hs'. completeHabit 0 1704099000000 ''u1''
                [createHabit ''u1'' 1704099000000 (lit ''Run'') None] = Inr hs'
          \<and> streak (hs' ! 0) = 1)
   \<and> (\<exists>hs'. completeAll 0 ''u1'' [1704099000000, 1704185400000, 1704271800000]
                [createHabit ''u1'' 1704099000000 (lit ''Run'') None] = Inr hs'
          \<and> streak (hs' ! 0) = 3)
   \<and> (\<exists>hs'. completeAll 0 ''u1'' [1704099000000, 1704271800000]
                [createHabit ''u1'' 1704099000000 (lit ''Run'') None] = Inr hs'
          \<and> streak (hs' ! 0) = 1)"
  using complete_streak_rule [of "[createHabit ''u1'' 1704099000000 (lit ''Run'') None]" 0 0
      "''u1''" 1704099000000 19723 1704099000000 1704185400000 1704271800000]
  by (simp add: createHabit_def validHistory_def hasCompletedToday_def lastCompletedDay_def
      completedDays_def localDay_def inYears_def inYearsDay_def firstDay_def lastDay_def)

lemma mapE_id: "(\<And>x. x \<in> set xs \<Longrightarrow> f x = Inr x) \<Longrightarrow> mapE f xs = Inr xs"
  using mapE_map [of xs f "\<lambda>x. x"] by simp

lemma completeHabit_noop:
  assumes "\<forall>h\<in>set hs. idH h = habitId \<longrightarrow> hasCompletedToday tz now h"
  shows "completeHabit tz now habitId hs = Inr hs"
  unfolding completeHabit_def
  by (rule mapE_id) (use assms in \<open>auto simp: completeCallback_noop\<close>)

lemma hasCompletedToday_completed:
  assumes "idH h = habitId" and "localDay tz now' = localDay tz now"
  shows "hasCompletedToday tz now' (completed tz now habitId h)"
proof (cases "hasCompletedToday tz now h")
  case True
  then show ?thesis
    using assms(2) by (simp add: completed_def hasCompletedToday_iff)
next
  case False
  from days_completed [OF assms(1) False] show ?thesis
    using assms(2) by (simp add: hasCompletedToday_iff)
qed

lemma length_instantsOf: "length (instantsOf hist) \<le> length hist"
  by (induction hist rule: instantsOf.induct) simp_all

lemma length_history_completed_le:
  "length (history (completed tz now habitId h)) \<le> length (history h) + 1"
proof -
  have "length (filterSeen {} (completedDays tz (history h) @ [localDay tz now]))
          \<le> length (completedDays tz (history h)) + 1"
    using length_filterSeen [of "{}" "completedDays tz (history h) @ [localDay tz now]"] by simp
  also have "\<dots> \<le> length (history h) + 1"
    by (simp add: completedDays_def length_instantsOf)
  finally show ?thesis
    by (simp add: completed_def)
qed

lemma length_history_completed_ge:
  assumes "validHistory tz h" and "distinct (completedDays tz (history h))"
  shows "length (history h) \<le> length (history (completed tz now habitId h))"
proof (cases "idH h \<noteq> habitId \<or> hasCompletedToday tz now h")
  case True
  then show ?thesis by (simp add: completed_def)
next
  case False
  then have "localDay tz now \<notin> set (completedDays tz (history h))"
    by (simp add: hasCompletedToday_iff)
  with assms(2) have "filterSeen {} (completedDays tz (history h) @ [localDay tz now])
      = completedDays tz (history h) @ [localDay tz now]"
    by (intro filterSeen_distinct) simp_all
  then have "length (history (completed tz now habitId h))
      = length (completedDays tz (history h)) + 1"
    using False by (simp add: completed_def)
  moreover have "length (completedDays tz (history h)) = length (map ISO (instantsOf (history h)))"
    by (simp add: completedDays_def)
  moreover have "map ISO (instantsOf (history h)) = history h"
    using assms(1) by (intro validStamp_instantsOf [of _ tz]) (simp add: validHistory_def list_all_iff)
  ultimately show ?thesis
    by simp
qed

text \<open>
  Claim C2. Complete is idempotent per calendar day. A habit that has an entry for today
  comes back unchanged, and so does the whole store when every targeted habit has one.
  In a store whose histories hold timestamps that parse, of the years 0001 to 9999, and
  with the clock in these years, a first Complete returns, a second Complete on the same
  calendar day changes nothing more, and the two together make no history longer by more
  than one entry, nor shorter when the history had one entry per day.
\<close>

theorem complete_idempotent_per_day:
  "(hasCompletedToday tz now h \<longrightarrow> completeCallback tz now habitId h = Inr h)
   \<and> ((\<forall>h\<in>set hs. idH h = habitId \<longrightarrow> hasCompletedToday tz now h) \<longrightarrow>
         completeHabit tz now habitId hs = Inr hs)
   \<and> ((\<forall>h\<in>set hs. validHistory tz h) \<and> inYears tz now
        \<and> localDay tz now' = localDay tz now \<longrightarrow>
        (\<exists>hs1. completeHabit tz now habitId hs = Inr hs1
              \<and> completeHabit tz now' habitId hs1 = Inr hs1
              \<and> length hs1 = length hs
              \<and> (\<forall>i<length hs.
                    length (history (hs1 ! i)) \<le> length (history (hs ! i)) + 1
                    \<and> (distinct (completedDays tz (history (hs ! i))) \<longrightarrow>
                          length (history (hs ! i)) \<le> length (history (hs1 ! i))))))"
proof (intro conjI impI)
  assume "hasCompletedToday tz now h"
  then show "completeCallback tz now habitId h = Inr h"
    by (simp add: completeCallback_noop)
next
  assume "\<forall>h\<in>set hs. idH h = habitId \<longrightarrow> hasCompletedToday tz now h"
  then show "completeHabit tz now habitId hs = Inr hs"
    by (rule completeHabit_noop)
next
  assume a: "(\<forall>h\<in>set hs. validHistory tz h) \<and> inYears tz now
        \<and> localDay tz now' = localDay tz now"
  let ?hs1 = "map (completed tz now habitId) hs"
  have first: "completeHabit tz now habitId hs = Inr ?hs1"
    using a by (simp add: completeHabit_valid)
  have "\<forall>h\<in>set ?hs1. idH h = habitId \<longrightarrow> hasCompletedToday tz now' h"
    using a by (auto simp: hasCompletedToday_completed)
  then have second: "completeHabit tz now' habitId ?hs1 = Inr ?hs1"
    by (rule completeHabit_noop)
  have "\<forall>i<length hs.
          length (history (?hs1 ! i)) \<le> length (history (hs ! i)) + 1
          \<and> (distinct (completedDays tz (history (hs ! i))) \<longrightarrow>
                length (history (hs ! i)) \<le> length (history (?hs1 ! i)))"
  proof (intro allI impI conjI)
    fix i
    assume "i < length hs"
    then show "length (history (?hs1 ! i)) \<le> length (history (hs ! i)) + 1"
      using length_history_completed_le [of tz now habitId "hs ! i"] by simp
  next
    fix i
    assume "i < length hs" and "distinct (completedDays tz (history (hs ! i)))"
    then show "length (history (hs ! i)) \<le> length (history (?hs1 ! i))"
      using a length_history_completed_ge [where h = "hs ! i" and tz = tz and now = now
          and habitId = habitId] by simp
  qed
  with first second
  show "\<exists>hs1. completeHabit tz now habitId hs = Inr hs1
              \<and> completeHabit tz now' habitId hs1 = Inr hs1
              \<and> length hs1 = length hs
              \<and> (\<forall>i<length hs.
                    length (history (hs1 ! i)) \<le> length (history (hs ! i)) + 1
                    \<and> (distinct (completedDays tz (history (hs ! i))) \<longrightarrow>
                          length (history (hs ! i)) \<le> length (history (hs1 ! i))))"
    by simp
qed


theorem complete_idempotent_per_day_witness:
  "hasCompletedToday 0 1704099000000
     \<lparr> idH = ''u1'', name = lit ''Run'', reminderTime = None, createdAt = ISO 1704000000000,
       history = [ISO 1704067200000], streak = 1, longestStreak = 1,
       lastCompleted = Some (ISO 1704067200000), reminderLastNotified = None \<rparr>
   \<and> completeCallback 0 1704099000000 ''u1''
     \<lparr> idH = ''u1'', name = lit ''Run'', reminderTime = None, createdAt = ISO 1704000000000,
       history = [ISO 1704067200000], streak = 1, longestStreak = 1,
       lastCompleted = Some (ISO 1704067200000), reminderLastNotified = None \<rparr>
     = Inr \<lparr> idH = ''u1'', name = lit ''Run'', reminderTime = None, createdAt = ISO 1704000000000,
       history = [ISO 1704067200000], streak = 1, longestStreak = 1,
       lastCompleted = Some (ISO 1704067200000), reminderLastNotified = None \<rparr>
   \<and> completeHabit 0 1704099000000 ''u1''
     [\<lparr> idH = ''u1'', name = lit ''Run'', reminderTime = None, createdAt = ISO 1704000000000,
        history = [ISO 1704067200000], streak = 1, longestStreak = 1,
        lastCompleted = Some (ISO 1704067200000), reminderLastNotified = None \<rparr>]
     = Inr [\<lparr> idH = ''u1'', name = lit ''Run'', reminderTime = None, createdAt = ISO 1704000000000,
        history = [ISO 1704067200000], streak = 1, longestStreak = 1,
        lastCompleted = Some (ISO 1704067200000), reminderLastNotified = None \<rparr>]
   \<and> validHistory 0 (createHabit ''u1'' 1704000000000 (lit ''Run'') None)
   \<and> inYears 0 1704099000000
   \<and> localDay 0 1704102600000 = localDay 0 1704099000000
   \<and> (\<exists>hs1. completeHabit 0 1704099000000 ''u1'' [createHabit ''u1'' 1704000000000 (lit ''Run'') None]
               = Inr hs1
            \<and> completeHabit 0 1704102600000 ''u1'' hs1 = Inr hs1
            \<and> length (history (hs1 ! 0)) \<le> 1)"
  using complete_idempotent_per_day [of 0 1704099000000
      "\<lparr> idH = ''u1'', name = lit ''Run'', reminderTime = None, createdAt = ISO 1704000000000,
       history = [ISO 1704067200000], streak = 1, longestStreak = 1,
       lastCompleted = Some (ISO 1704067200000), reminderLastNotified = None \<rparr>"
      "''u1''" "[createHabit ''u1'' 1704000000000 (lit ''Run'') None]" 1704102600000]
    complete_idempotent_per_day [of 0 1704099000000
      "\<lparr> idH = ''u1'', name = lit ''Run'', reminderTime = None, createdAt = ISO 1704000000000,
       history = [ISO 1704067200000], streak = 1, longestStreak = 1,
       lastCompleted = Some (ISO 1704067200000), reminderLastNotified = None \<rparr>"
      "''u1''"
      "[\<lparr> idH = ''u1'', name = lit ''Run'', reminderTime = None, createdAt = ISO 1704000000000,
       history = [ISO 1704067200000], streak = 1, longestStreak = 1,
       lastCompleted = Some (ISO 1704067200000), reminderLastNotified = None \<rparr>]" 1704102600000]
  by (auto simp: createHabit_def validHistory_def hasCompletedToday_def isToday_def localDay_def
      inYears_def inYearsDay_def firstDay_def lastDay_def)


section \<open>The reminder tick\<close>

lemma element_simps [simp]:
  "element xs 0 = (case xs of [] \<Rightarrow> None | x # _ \<Rightarrow> Some x)"
  "element xs (Suc 0) = (case xs of x # y # _ \<Rightarrow> Some y | _ \<Rightarrow> None)"
  by (cases xs; simp split: list.splits)+

lemma reminderCallback_qualifies:
  "reminderCallback num tz now habit =
     (if qualifies num tz now habit
      then ([habit], habit\<lparr> reminderLastNotified := Some (keyOfDay (localDay tz now)) \<rparr>)
      else ([], habit))"
proof (cases "reminderTime habit")
  case None
  then show ?thesis
    by (simp add: reminderCallback_def qualifies_def parsedTime_def)
next
  case (Some rt)
  show ?thesis
  proof (cases "map num (splitString CHR '':'' rt)")
    case Nil
    then show ?thesis
      using Some by (simp add: reminderCallback_def qualifies_def parsedTime_def Let_def getTime_def)
  next
    case (Cons a as)
    note outer = Cons
    show ?thesis
    proof (cases as)
      case Nil
      then show ?thesis
        using Some outer
        by (cases a) (simp_all add: reminderCallback_def qualifies_def parsedTime_def Let_def getTime_def)
    next
      case (Cons b bs)
      then show ?thesis
        using Some outer
        by (cases a; cases b)
          (auto simp: reminderCallback_def qualifies_def parsedTime_def Let_def getTime_def
            targetInstant_def)
    qed
  qed
qed


lemma reminderPass_nth:
  "i < length hs \<Longrightarrow> reminderPass num tz now hs ! i = reminderCallback num tz now (hs ! i)"
  by (simp add: reminderPass_def)

lemma length_reminderPass [simp]: "length (reminderPass num tz now hs) = length hs"
  by (simp add: reminderPass_def)

lemma completeCallback_reminderLastNotified:
  "completeCallback tz now habitId h = Inr h' \<Longrightarrow> reminderLastNotified h' = reminderLastNotified h"
  by (auto simp: completeCallback_result split: if_splits sum.splits)

lemma completeHabit_nth:
  assumes "completeHabit tz now habitId hs = Inr hs'"
  shows "length hs' = length hs"
    and "i < length hs \<Longrightarrow> completeCallback tz now habitId (hs ! i) = Inr (hs' ! i)"
  using mapE_Inr_D [OF assms [unfolded completeHabit_def]] by simp_all

lemma firings_notified:
  assumes "i < length hs" and "reminderLastNotified (hs ! i) = Some (keyOfDay d)"
    and "\<forall>e\<in>set events. localDay tz (eventTime e) = d"
  shows "firings num tz i hs events = 0"
  using assms
proof (induction events arbitrary: hs)
  case Nil
  then show ?case by simp
next
  case (Cons e events)
  show ?case
  proof (cases e)
    case (Tick now)
    with Cons.prems have day: "localDay tz now = d" by simp
    with Cons.prems have nq: "\<not> qualifies num tz now (hs ! i)"
      by (simp add: qualifies_def split: option.splits)
    let ?hs' = "map snd (reminderPass num tz now hs)"
    have "?hs' ! i = hs ! i"
      using Cons.prems(1) nq by (simp add: reminderPass_nth reminderCallback_qualifies)
    with Cons.prems have "firings num tz i ?hs' events = 0"
      by (intro Cons.IH) simp_all
    then show ?thesis
      using Tick nq by (simp add: reminderCallback_qualifies)
  next
    case (Complete habitId now)
    show ?thesis
    proof (cases "completeHabit tz now habitId hs")
      case (Inl e)
      then show ?thesis using Complete by simp
    next
      case (Inr hs')
      from completeHabit_nth [OF Inr] Cons.prems(1)
      have len: "length hs' = length hs"
        and cb: "completeCallback tz now habitId (hs ! i) = Inr (hs' ! i)"
        by simp_all
      from completeCallback_reminderLastNotified [OF cb] Cons.prems
      have "firings num tz i hs' events = 0"
        by (intro Cons.IH) (simp_all add: len)
      then show ?thesis
        using Complete Inr by simp
    qed
  qed
qed

lemma firings_once:
  assumes "i < length hs" and "\<forall>e\<in>set events. localDay tz (eventTime e) = d"
  shows "firings num tz i hs events \<le> 1"
  using assms
proof (induction events arbitrary: hs)
  case Nil
  then show ?case by simp
next
  case (Cons e events)
  show ?case
  proof (cases e)
    case (Tick now)
    with Cons.prems have day: "localDay tz now = d" by simp
    let ?hs' = "map snd (reminderPass num tz now hs)"
    show ?thesis
    proof (cases "qualifies num tz now (hs ! i)")
      case True
      then have r: "reminderLastNotified (?hs' ! i) = Some (keyOfDay d)"
        using Cons.prems(1) day by (simp add: reminderPass_nth reminderCallback_qualifies)
      have l: "i < length ?hs'"
        using Cons.prems(1) by simp
      have e: "\<forall>e\<in>set events. localDay tz (eventTime e) = d"
        using Cons.prems(2) by simp
      from firings_notified [OF l r e] have "firings num tz i ?hs' events = 0" .
      then show ?thesis
        using Tick True by (simp add: reminderCallback_qualifies)
    next
      case False
      from Cons.prems have "firings num tz i ?hs' events \<le> 1"
        by (intro Cons.IH) simp_all
      then show ?thesis
        using Tick False by (simp add: reminderCallback_qualifies)
    qed
  next
    case (Complete habitId now)
    show ?thesis
    proof (cases "completeHabit tz now habitId hs")
      case (Inl e)
      then show ?thesis using Complete by simp
    next
      case (Inr hs')
      from completeHabit_nth(1) [OF Inr] Cons.prems
      have "firings num tz i hs' events \<le> 1"
        by (intro Cons.IH) simp_all
      then show ?thesis
        using Complete Inr by simp
    qed
  qed
qed


text \<open>
  Claim C3. On a tick the callback pushes a habit on \<^verbatim>\<open>triggered\<close>, and marks it, exactly
  when the habit qualifies: its reminder time parses to a numeric hour and minute, the time
  elapsed since today's target instant is between 0 and 60000 milliseconds, its
  last-reminder-fired date is not today, and it has no completion for today. Over any
  events of one calendar day that are ticks and calls of Complete, a habit qualifies at
  most once. For the reminder time 09:00, a tick at 09:00:30 triggers, a tick at 09:00:45
  of the same day does not, and a tick at 09:00:30 of the next day triggers again.
\<close>

theorem reminder_qualifies_once_per_day:
  "reminderCallback num tz now habit =
     (if qualifies num tz now habit
      then ([habit], habit\<lparr> reminderLastNotified := Some (keyOfDay (localDay tz now)) \<rparr>)
      else ([], habit))
   \<and> (i < length hs \<and> (\<forall>e\<in>set events. localDay tz (eventTime e) = d) \<longrightarrow>
         firings num tz i hs events \<le> 1)
   \<and> (num ''09'' = Finite 9 \<and> num ''00'' = Finite 0 \<longrightarrow>
         firings num 0 0 [createHabit ''u1'' 1704099000000 (lit ''Run'') (Some ''09:00'')]
           [Tick 1704099630000] = 1
       \<and> firings num 0 0 [createHabit ''u1'' 1704099000000 (lit ''Run'') (Some ''09:00'')]
           [Tick 1704099630000, Tick 1704099645000] = 1
       \<and> firings num 0 0 [createHabit ''u1'' 1704099000000 (lit ''Run'') (Some ''09:00'')]
           [Tick 1704099630000, Tick 1704099645000, Tick 1704186030000] = 2)"
proof (intro conjI impI)
  show "reminderCallback num tz now habit =
     (if qualifies num tz now habit
      then ([habit], habit\<lparr> reminderLastNotified := Some (keyOfDay (localDay tz now)) \<rparr>)
      else ([], habit))"
    by (rule reminderCallback_qualifies)
next
  assume "i < length hs \<and> (\<forall>e\<in>set events. localDay tz (eventTime e) = d)"
  then show "firings num tz i hs events \<le> 1"
    using firings_once [of i hs events tz d num] by simp
next
  assume n: "num ''09'' = Finite 9 \<and> num ''00'' = Finite 0"
  let ?h = "createHabit ''u1'' 1704099000000 (lit ''Run'') (Some ''09:00'')"
  have p: "parsedTime num (Some ''09:00'') = Some (9, 0)"
    using n by (simp add: parsedTime_def)
  show "firings num 0 0 [?h] [Tick 1704099630000] = 1"
    by (simp add: reminderCallback_qualifies qualifies_def p createHabit_def targetInstant_def
        localDay_def localMidnight_def hasCompletedToday_def reminderPass_def keyOfDay_def
        firstDay_def)
  show "firings num 0 0 [?h] [Tick 1704099630000, Tick 1704099645000] = 1"
    by (simp add: reminderCallback_qualifies qualifies_def p createHabit_def targetInstant_def
        localDay_def localMidnight_def hasCompletedToday_def reminderPass_def keyOfDay_def
        firstDay_def)
  show "firings num 0 0 [?h] [Tick 1704099630000, Tick 1704099645000, Tick 1704186030000] = 2"
    by (simp add: reminderCallback_qualifies qualifies_def p createHabit_def targetInstant_def
        localDay_def localMidnight_def hasCompletedToday_def reminderPass_def keyOfDay_def
        firstDay_def)
qed

theorem reminder_qualifies_once_per_day_witness:
  "qualifies decimalNumber 0 1704099630000
     (createHabit ''u1'' 1704099000000 (lit ''Run'') (Some ''09:00''))
   \<and> fst (reminderCallback decimalNumber 0 1704099630000
            (createHabit ''u1'' 1704099000000 (lit ''Run'') (Some ''09:00'')))
       = [createHabit ''u1'' 1704099000000 (lit ''Run'') (Some ''09:00'')]
   \<and> list_all (\<lambda>e. localDay 0 (eventTime e) = 19723)
        [Tick 1704099630000, Complete ''u1'' 1704099640000, Tick 1704099645000]
   \<and> firings decimalNumber 0 0 [createHabit ''u1'' 1704099000000 (lit ''Run'') (Some ''09:00'')]
        [Tick 1704099630000, Complete ''u1'' 1704099640000, Tick 1704099645000] \<le> 1
   \<and> decimalNumber ''09'' = Finite 9 \<and> decimalNumber ''00'' = Finite 0
   \<and> firings decimalNumber 0 0 [createHabit ''u1'' 1704099000000 (lit ''Run'') (Some ''09:00'')]
        [Tick 1704099630000, Tick 1704099645000, Tick 1704186030000] = 2"
  using reminder_qualifies_once_per_day [of decimalNumber 0 1704099630000
      "createHabit ''u1'' 1704099000000 (lit ''Run'') (Some ''09:00'')" 0
      "[createHabit ''u1'' 1704099000000 (lit ''Run'') (Some ''09:00'')]"
      "[Tick 1704099630000, Complete ''u1'' 1704099640000, Tick 1704099645000]" 19723]
  by (simp add: decimalNumber_def qualifies_def parsedTime_def createHabit_def targetInstant_def
      localDay_def localMidnight_def hasCompletedToday_def keyOfDay_def firstDay_def)

lemma triggered_filter:
  "concat (map fst (reminderPass num tz now hs)) = filter (qualifies num tz now) hs"
  by (induction hs) (simp_all add: reminderPass_def reminderCallback_qualifies)

lemma returned_map:
  "map snd (reminderPass num tz now hs) =
     map (\<lambda>h. if qualifies num tz now h
               then h\<lparr> reminderLastNotified := Some (keyOfDay (localDay tz now)) \<rparr> else h) hs"
  by (induction hs) (simp_all add: reminderPass_def reminderCallback_qualifies)

lemma map_unchanged: "filter P hs = [] \<Longrightarrow> map (\<lambda>h. if P h then f h else h) hs = hs"
  by (induction hs) (auto split: if_splits)

lemma fst_reminderTick:
  "fst (reminderTick num tz perm run uuid now hs) =
     map (\<lambda>h. if qualifies num tz now h
               then h\<lparr> reminderLastNotified := Some (keyOfDay (localDay tz now)) \<rparr> else h) hs"
  by (simp add: reminderTick_def Let_def returned_map split: list.splits)

text \<open>What a tick sets and constructs, by the moment at which React calls the updater.\<close>

lemma reminderTick_DuringCall:
  "snd (reminderTick num tz perm DuringCall uuid now hs) =
     (case filter (qualifies num tz now) hs of
        [] \<Rightarrow> (None, None)
      | first # _ \<Rightarrow>
          (Some \<lparr> toastId = uuid,
                  message = lit ''Time for '' @ [0x22] @ name first @ [0x22] \<rparr>,
           if perm = Granted
           then Some \<lparr> title = ''HabitPulse Reminder'',
                       body = lit ''Time for '' @ [0x22] @ name first @ [0x22],
                       tag = idH first \<rparr>
           else None))"
  by (cases "filter (qualifies num tz now) hs")
    (simp_all add: reminderTick_def Let_def triggered_filter)

lemma reminderTick_AtNextRender:
  "snd (reminderTick num tz perm AtNextRender uuid now hs) = (None, None)"
  by (simp add: reminderTick_def Let_def)

lemma reminderTick_none_qualifies:
  "filter (qualifies num tz now) hs = [] \<Longrightarrow>
   reminderTick num tz perm run uuid now hs = (hs, None, None)"
  by (cases run)
    (simp_all add: reminderTick_def Let_def triggered_filter returned_map map_unchanged)

text \<open>
  Claim C4 is what the interval callback sets out to do, and the code misses it: the
  callback reads \<^verbatim>\<open>triggered\<close> right after \<^verbatim>\<open>setHabits\<close>, and the updater that fills
  it has run by then only if React called it inside \<^verbatim>\<open>setHabits\<close>. On a tick at
  09:00:30 with one habit whose reminder time is 09:00, the habit is marked as reminded
  today in both cases; when React calls the updater at the next render, no toast is set
  and no notification constructed, where the claim has exactly one of each; when React
  calls it inside \<^verbatim>\<open>setHabits\<close>, there is one of each, naming the habit.
\<close>

theorem reminder_tick_updater_at_next_render:
  "reminderTick decimalNumber 0 Granted AtNextRender ''t1'' 1704099630000
     [createHabit ''u1'' 1704099000000 (lit ''Run'') (Some ''09:00'')]
   = ([(createHabit ''u1'' 1704099000000 (lit ''Run'') (Some ''09:00''))
         \<lparr> reminderLastNotified := Some (DayKey 19723) \<rparr>],
      None, None)
   \<and> reminderTick decimalNumber 0 Granted DuringCall ''t1'' 1704099630000
     [createHabit ''u1'' 1704099000000 (lit ''Run'') (Some ''09:00'')]
   = ([(createHabit ''u1'' 1704099000000 (lit ''Run'') (Some ''09:00''))
         \<lparr> reminderLastNotified := Some (DayKey 19723) \<rparr>],
      Some \<lparr> toastId = ''t1'', message = lit ''Time for '' @ [0x22] @ lit ''Run'' @ [0x22] \<rparr>,
      Some \<lparr> title = ''HabitPulse Reminder'',
              body = lit ''Time for '' @ [0x22] @ lit ''Run'' @ [0x22], tag = ''u1'' \<rparr>)"
proof -
  let ?h = "createHabit ''u1'' 1704099000000 (lit ''Run'') (Some ''09:00'')"
  have q: "qualifies decimalNumber 0 1704099630000 ?h"
    by (simp add: decimalNumber_def qualifies_def parsedTime_def createHabit_def
        targetInstant_def localDay_def localMidnight_def hasCompletedToday_def keyOfDay_def
        firstDay_def)
  have k: "keyOfDay (localDay 0 1704099630000) = DayKey 19723"
    by (simp add: keyOfDay_def firstDay_def localDay_def)
  have n: "name ?h = lit ''Run''" "idH ?h = ''u1''"
    by (simp_all add: createHabit_def trim_def lit_def isWhiteSpace_def)
  have f: "fst (reminderTick decimalNumber 0 Granted run ''t1'' 1704099630000 [?h])
      = [?h\<lparr> reminderLastNotified := Some (DayKey 19723) \<rparr>]" for run
    using q k by (simp add: fst_reminderTick)
  have a: "snd (reminderTick decimalNumber 0 Granted AtNextRender ''t1'' 1704099630000 [?h])
      = (None, None)"
    by (rule reminderTick_AtNextRender)
  have d: "snd (reminderTick decimalNumber 0 Granted DuringCall ''t1'' 1704099630000 [?h])
      = (Some \<lparr> toastId = ''t1'', message = lit ''Time for '' @ [0x22] @ lit ''Run'' @ [0x22] \<rparr>,
         Some \<lparr> title = ''HabitPulse Reminder'',
                 body = lit ''Time for '' @ [0x22] @ lit ''Run'' @ [0x22], tag = ''u1'' \<rparr>)"
    using q n by (simp add: reminderTick_DuringCall)
  show ?thesis
    using f [of AtNextRender] f [of DuringCall] a d by (simp add: prod_eq_iff)
qed


section \<open>Load\<close>

lemma loadCallback_valid:
  assumes "\<forall>x\<in>set (storedHistory s). validStamp tz x"
  shows "loadCallback tz s =
     Inr \<lparr> idH = idH s, name = name s, reminderTime = reminderTime s,
           createdAt = createdAt s,
           history = map (midnightIso tz) (filterSeen {} (completedDays tz (storedHistory s))),
           streak = streak s, longestStreak = longestStreak s,
           lastCompleted = lastCompleted s,
           reminderLastNotified = reminderLastNotified s \<rparr>"
  by (simp add: loadCallback_def uniqueHistory_valid [OF assms])

lemma loadCallback_invalid:
  assumes "x \<in> set (storedHistory s)" and "newDate x = None"
  shows "loadCallback tz s = Inl RangeError"
  by (simp add: loadCallback_def uniqueHistory_invalid [OF assms])

lemma loadCallback_beyond:
  assumes "ISO t \<in> set (storedHistory s)" and "lastDay < localDay tz t"
  shows "loadCallback tz s = Inl RangeError"
  by (simp add: loadCallback_def uniqueHistory_beyond [OF assms])

text \<open>
  Claim C5, as stated, fails: an invalid timestamp is not discarded. \<^verbatim>\<open>format\<close> throws on
  it, the \<^verbatim>\<open>catch\<close> of the load effect takes the exception, and no habit is loaded:
  neither the habit that held the invalid timestamp beside a valid one, nor the other
  habit of the blob.
\<close>

theorem load_invalid_timestamp_counterexample:
  "load 0 (Parsed
     [\<lparr> idH = ''u1'', name = lit ''Run'', reminderTime = None, createdAt = ISO 1704000000000,
         history = Some [ISO 1704096000000, Garbage], streak = 1, longestStreak = 1,
         lastCompleted = Some (ISO 1704067200000), reminderLastNotified = None \<rparr>,
      \<lparr> idH = ''u2'', name = lit ''Read'', reminderTime = None, createdAt = ISO 1704000000000,
         history = Some [ISO 1704096000000], streak = 1, longestStreak = 1,
         lastCompleted = Some (ISO 1704067200000), reminderLastNotified = None \<rparr>]) = []"
  by (simp add: load_def loadCallback_def storedHistory_def uniqueHistory_def)

text \<open>
  Claim C5, amended. When every stored timestamp parses and falls, in local time, in the
  years 0001 to 9999, Load keeps every habit with its other fields, and each history
  becomes one entry per local calendar day on which the stored history had a timestamp, at
  the local midnight of that day, in the order of the first timestamps of the days. When
  some stored history holds a timestamp that does not parse, or one of a year after 9999,
  Load leaves the store empty.
\<close>

theorem load_normalizes_history:
  "((\<forall>s\<in>set parsed. \<forall>x\<in>set (storedHistory s). validStamp tz x) \<longrightarrow>
       length (load tz (Parsed parsed)) = length parsed
       \<and> (\<forall>i<length parsed.
             load tz (Parsed parsed) ! i =
               \<lparr> idH = idH (parsed ! i), name = name (parsed ! i),
                 reminderTime = reminderTime (parsed ! i), createdAt = createdAt (parsed ! i),
                 history = map (midnightIso tz)
                             (filterSeen {} (completedDays tz (storedHistory (parsed ! i)))),
                 streak = streak (parsed ! i), longestStreak = longestStreak (parsed ! i),
                 lastCompleted = lastCompleted (parsed ! i),
                 reminderLastNotified = reminderLastNotified (parsed ! i) \<rparr>
             \<and> distinct (completedDays tz (history (load tz (Parsed parsed) ! i)))
             \<and> set (completedDays tz (history (load tz (Parsed parsed) ! i)))
                 = set (completedDays tz (storedHistory (parsed ! i)))))
   \<and> ((\<exists>s\<in>set parsed. \<exists>x\<in>set (storedHistory s). newDate x = None) \<longrightarrow>
         load tz (Parsed parsed) = [])
   \<and> ((\<exists>s\<in>set parsed. \<exists>t. ISO t \<in> set (storedHistory s) \<and> lastDay < localDay tz t) \<longrightarrow>
         load tz (Parsed parsed) = [])"
proof (intro conjI impI)
  assume v: "\<forall>s\<in>set parsed. \<forall>x\<in>set (storedHistory s). validStamp tz x"
  let ?f = "\<lambda>s. \<lparr> idH = idH s, name = name s, reminderTime = reminderTime s,
           createdAt = createdAt s,
           history = map (midnightIso tz) (filterSeen {} (completedDays tz (storedHistory s))),
           streak = streak s, longestStreak = longestStreak s,
           lastCompleted = lastCompleted s,
           reminderLastNotified = reminderLastNotified s \<rparr>"
  have "mapE (loadCallback tz) parsed = Inr (map ?f parsed)"
    by (rule mapE_map) (simp add: loadCallback_valid v)
  then have l: "load tz (Parsed parsed) = map ?f parsed"
    by (simp add: load_def)
  show "length (load tz (Parsed parsed)) = length parsed"
    by (simp add: l)
  show "\<forall>i<length parsed.
             load tz (Parsed parsed) ! i = ?f (parsed ! i)
             \<and> distinct (completedDays tz (history (load tz (Parsed parsed) ! i)))
             \<and> set (completedDays tz (history (load tz (Parsed parsed) ! i)))
                 = set (completedDays tz (storedHistory (parsed ! i)))"
    by (simp add: l completedDays_midnight distinct_filterSeen set_filterSeen)
next
  assume "\<exists>s\<in>set parsed. \<exists>x\<in>set (storedHistory s). newDate x = None"
  then obtain s x where s: "s \<in> set parsed" and x: "x \<in> set (storedHistory s)" "newDate x = None"
    by blast
  have "mapE (loadCallback tz) parsed = Inl RangeError"
    by (rule mapE_Inl [where f = "loadCallback tz", OF s loadCallback_invalid [OF x]])
  then show "load tz (Parsed parsed) = []"
    by (simp add: load_def)
next
  assume "\<exists>s\<in>set parsed. \<exists>t. ISO t \<in> set (storedHistory s) \<and> lastDay < localDay tz t"
  then obtain s t where s: "s \<in> set parsed"
    and t: "ISO t \<in> set (storedHistory s)" "lastDay < localDay tz t"
    by blast
  have "mapE (loadCallback tz) parsed = Inl RangeError"
    by (rule mapE_Inl [where f = "loadCallback tz", OF s loadCallback_beyond [OF t]])
  then show "load tz (Parsed parsed) = []"
    by (simp add: load_def)
qed

theorem load_normalizes_history_witness:
  "list_all (validStamp 0) [ISO 1704096000000, ISO 1704150000000]
   \<and> localDay 0 1704096000000 = localDay 0 1704150000000
   \<and> load 0 (Parsed
       [\<lparr> idH = ''u1'', name = lit ''Run'', reminderTime = None, createdAt = ISO 1704000000000,
           history = Some [ISO 1704096000000, ISO 1704150000000], streak = 1,
           longestStreak = 1, lastCompleted = Some (ISO 1704067200000),
           reminderLastNotified = None \<rparr>]) ! 0
      = \<lparr> idH = ''u1'', name = lit ''Run'', reminderTime = None, createdAt = ISO 1704000000000,
           history = [ISO 1704067200000], streak = 1,
           longestStreak = 1, lastCompleted = Some (ISO 1704067200000),
           reminderLastNotified = None \<rparr>
   \<and> newDate Garbage = None
   \<and> load 0 (Parsed
       [\<lparr> idH = ''u1'', name = lit ''Run'', reminderTime = None, createdAt = ISO 1704000000000,
           history = Some [ISO 1704096000000, Garbage], streak = 1,
           longestStreak = 1, lastCompleted = Some (ISO 1704067200000),
           reminderLastNotified = None \<rparr>]) = []
   \<and> lastDay < localDay 0 253402300800000
   \<and> load 0 (Parsed
       [\<lparr> idH = ''u1'', name = lit ''Run'', reminderTime = None, createdAt = ISO 1704000000000,
           history = Some [ISO 1704096000000, ISO 253402300800000], streak = 1,
           longestStreak = 1, lastCompleted = Some (ISO 1704067200000),
           reminderLastNotified = None \<rparr>]) = []"
  using load_normalizes_history [of
      "[\<lparr> idH = ''u1'', name = lit ''Run'', reminderTime = None, createdAt = ISO 1704000000000,
           history = Some [ISO 1704096000000, ISO 1704150000000], streak = 1,
           longestStreak = 1, lastCompleted = Some (ISO 1704067200000),
           reminderLastNotified = None \<rparr>]" 0]
    load_normalizes_history [of
      "[\<lparr> idH = ''u1'', name = lit ''Run'', reminderTime = None, createdAt = ISO 1704000000000,
           history = Some [ISO 1704096000000, Garbage], streak = 1,
           longestStreak = 1, lastCompleted = Some (ISO 1704067200000),
           reminderLastNotified = None \<rparr>]" 0]
    load_normalizes_history [of
      "[\<lparr> idH = ''u1'', name = lit ''Run'', reminderTime = None, createdAt = ISO 1704000000000,
           history = Some [ISO 1704096000000, ISO 253402300800000], streak = 1,
           longestStreak = 1, lastCompleted = Some (ISO 1704067200000),
           reminderLastNotified = None \<rparr>]" 0]
  by (auto simp: storedHistory_def completedDays_def midnightIso_def localDay_def
      localMidnight_def validStamp_def inYears_def inYearsDay_def firstDay_def lastDay_def)


section \<open>Create and Reset\<close>





text \<open>
  Claim C7. Reset keeps the length of the store, and a habit with the given identifier
  comes out, whatever its state was, with its identifier, name, reminder time and creation
  time as they were, an empty history, streak 0, longest streak 0, and last-completed and
  last-reminder-fired absent.
\<close>

theorem reset_clears_habit:
  "length (resetHabit habitId hs) = length hs
   \<and> (\<forall>i<length hs. idH (hs ! i) = habitId \<longrightarrow>
         resetHabit habitId hs ! i =
           \<lparr> idH = idH (hs ! i), name = name (hs ! i), reminderTime = reminderTime (hs ! i),
             createdAt = createdAt (hs ! i), history = [], streak = 0, longestStreak = 0,
             lastCompleted = None, reminderLastNotified = None \<rparr>)"
  by (simp add: resetHabit_def resetCallback_def)

theorem reset_clears_habit_witness:
  "idH (\<lparr> idH = ''u1'', name = lit ''Run'', reminderTime = Some ''09:00'',
          createdAt = ISO 1704000000000, history = [ISO 1704067200000], streak = 1,
          longestStreak = 4, lastCompleted = Some (ISO 1704067200000),
          reminderLastNotified = Some (DayKey 19723) \<rparr> :: habit) = ''u1''
   \<and> resetHabit ''u1''
        [\<lparr> idH = ''u1'', name = lit ''Run'', reminderTime = Some ''09:00'',
            createdAt = ISO 1704000000000, history = [ISO 1704067200000], streak = 1,
            longestStreak = 4, lastCompleted = Some (ISO 1704067200000),
            reminderLastNotified = Some (DayKey 19723) \<rparr>] ! 0
      = \<lparr> idH = ''u1'', name = lit ''Run'', reminderTime = Some ''09:00'',
            createdAt = ISO 1704000000000, history = [], streak = 0,
            longestStreak = 0, lastCompleted = None, reminderLastNotified = None \<rparr>"
  using reset_clears_habit [of "''u1''"
        "[\<lparr> idH = ''u1'', name = lit ''Run'', reminderTime = Some ''09:00'',
            createdAt = ISO 1704000000000, history = [ISO 1704067200000], streak = 1,
            longestStreak = 4, lastCompleted = Some (ISO 1704067200000),
            reminderLastNotified = Some (DayKey 19723) \<rparr>]"]
  by simp


section \<open>Invariants and frame\<close>

lemma mapE_set:
  assumes "mapE f xs = Inr ys" and "y \<in> set ys"
  shows "\<exists>x\<in>set xs. f x = Inr y"
proof -
  from assms(2) obtain i where i: "i < length ys" "ys ! i = y"
    by (auto simp: in_set_conv_nth)
  with mapE_Inr_D [OF assms(1)] have "i < length xs" "f (xs ! i) = Inr y"
    by simp_all
  then show ?thesis
    using nth_mem by blast
qed

lemma streak_le_completed:
  "streak h \<le> longestStreak h \<Longrightarrow>
   streak (completed tz now habitId h) \<le> longestStreak (completed tz now habitId h)"
  by (simp add: completed_def)

lemma completeCallback_streak_le:
  assumes "completeCallback tz now habitId h = Inr h'" and "streak h \<le> longestStreak h"
  shows "streak h' \<le> longestStreak h'"
  using assms by (auto simp: completeCallback_result split: if_splits sum.splits)

lemma completeCallback_longest:
  assumes "completeCallback tz now habitId h = Inr h'" and "idH h = habitId"
    and "\<not> hasCompletedToday tz now h"
  shows "longestStreak h' = max (streak h') (longestStreak h)"
  using assms by (auto simp: completeCallback_result split: if_splits sum.splits)

text \<open>
  Claim C6. If the longest streak of every habit of the store is at least its streak, the
  same holds after Create, after Complete (which returns when the histories hold
  timestamps that parse, of the years 0001 to 9999, and the clock is in these years), after
  Reset and after a reminder tick. A new habit has streak 0 and longest streak 0, a
  Complete that is no same-day no-op sets the longest streak to the maximum of the new
  streak and the old longest streak, and Reset sets both to 0.
\<close>

theorem longest_streak_invariant:
  assumes inv: "\<forall>h\<in>set hs. streak h \<le> longestStreak h"
  shows "(\<forall>h\<in>set (fst (handleAddHabit uuid now nm time hs)). streak h \<le> longestStreak h)
    \<and> (\<forall>hs'. completeHabit tz now habitId hs = Inr hs' \<longrightarrow>
           (\<forall>h\<in>set hs'. streak h \<le> longestStreak h))
    \<and> ((\<forall>h\<in>set hs. validHistory tz h) \<and> inYears tz now \<longrightarrow>
           (\<exists>hs'. completeHabit tz now habitId hs = Inr hs'))
    \<and> (\<forall>h\<in>set (resetHabit habitId hs). streak h \<le> longestStreak h)
    \<and> (\<forall>h\<in>set (fst (reminderTick num tz perm run uuid' now hs)). streak h \<le> longestStreak h)
    \<and> streak (createHabit uuid now nm rt) = 0 \<and> longestStreak (createHabit uuid now nm rt) = 0
    \<and> (\<forall>h h'. idH h = habitId \<and> \<not> hasCompletedToday tz now h
                \<and> completeCallback tz now habitId h = Inr h' \<longrightarrow>
               longestStreak h' = max (streak h') (longestStreak h))
    \<and> (\<forall>h. idH h = habitId \<longrightarrow>
             streak (resetCallback habitId h) = 0 \<and> longestStreak (resetCallback habitId h) = 0)"
proof (intro conjI)
  show "\<forall>h\<in>set (fst (handleAddHabit uuid now nm time hs)). streak h \<le> longestStreak h"
    using inv by (simp add: handleAddHabit_def createHabit_def Let_def)
  show "\<forall>hs'. completeHabit tz now habitId hs = Inr hs' \<longrightarrow>
           (\<forall>h\<in>set hs'. streak h \<le> longestStreak h)"
  proof (intro allI impI ballI)
    fix hs' h'
    assume c: "completeHabit tz now habitId hs = Inr hs'" and h': "h' \<in> set hs'"
    from mapE_set [OF c [unfolded completeHabit_def] h']
    obtain h where "h \<in> set hs" and "completeCallback tz now habitId h = Inr h'"
      by blast
    then show "streak h' \<le> longestStreak h'"
      using inv completeCallback_streak_le by blast
  qed
  show "(\<forall>h\<in>set hs. validHistory tz h) \<and> inYears tz now \<longrightarrow>
           (\<exists>hs'. completeHabit tz now habitId hs = Inr hs')"
    by (simp add: completeHabit_valid)
  show "\<forall>h\<in>set (resetHabit habitId hs). streak h \<le> longestStreak h"
    using inv by (auto simp: resetHabit_def resetCallback_def)
  show "\<forall>h\<in>set (fst (reminderTick num tz perm run uuid' now hs)). streak h \<le> longestStreak h"
    using inv by (auto simp: fst_reminderTick)
  show "streak (createHabit uuid now nm rt) = 0"
    by (simp add: createHabit_def)
  show "longestStreak (createHabit uuid now nm rt) = 0"
    by (simp add: createHabit_def)
  show "\<forall>h h'. idH h = habitId \<and> \<not> hasCompletedToday tz now h
                \<and> completeCallback tz now habitId h = Inr h' \<longrightarrow>
               longestStreak h' = max (streak h') (longestStreak h)"
    using completeCallback_longest by blast
  show "\<forall>h. idH h = habitId \<longrightarrow>
             streak (resetCallback habitId h) = 0 \<and> longestStreak (resetCallback habitId h) = 0"
    by (simp add: resetCallback_def)
qed

theorem longest_streak_invariant_witness:
  "list_all (\<lambda>h. streak h \<le> longestStreak h) [\<lparr> idH = ''u1'', name = lit ''Run'', reminderTime = Some ''09:00'',
         createdAt = ISO 1704000000000, history = [ISO 1704067200000], streak = 1,
         longestStreak = 4, lastCompleted = Some (ISO 1704067200000),
         reminderLastNotified = None \<rparr>]
   \<and> validHistory 0 (\<lparr> idH = ''u1'', name = lit ''Run'', reminderTime = Some ''09:00'',
         createdAt = ISO 1704000000000, history = [ISO 1704067200000], streak = 1,
         longestStreak = 4, lastCompleted = Some (ISO 1704067200000),
         reminderLastNotified = None \<rparr>)
   \<and> inYears 0 1704185400000
   \<and> (\<exists>hs'. completeHabit 0 1704185400000 ''u1'' [\<lparr> idH = ''u1'', name = lit ''Run'', reminderTime = Some ''09:00'',
         createdAt = ISO 1704000000000, history = [ISO 1704067200000], streak = 1,
         longestStreak = 4, lastCompleted = Some (ISO 1704067200000),
         reminderLastNotified = None \<rparr>] = Inr hs'
          \<and> list_all (\<lambda>h. streak h \<le> longestStreak h) hs')
   \<and> list_all (\<lambda>h. streak h \<le> longestStreak h) (resetHabit ''u1'' [\<lparr> idH = ''u1'', name = lit ''Run'', reminderTime = Some ''09:00'',
         createdAt = ISO 1704000000000, history = [ISO 1704067200000], streak = 1,
         longestStreak = 4, lastCompleted = Some (ISO 1704067200000),
         reminderLastNotified = None \<rparr>])
   \<and> list_all (\<lambda>h. streak h \<le> longestStreak h)
        (fst (reminderTick decimalNumber 0 Granted DuringCall ''t1'' 1704185400000 [\<lparr> idH = ''u1'', name = lit ''Run'', reminderTime = Some ''09:00'',
         createdAt = ISO 1704000000000, history = [ISO 1704067200000], streak = 1,
         longestStreak = 4, lastCompleted = Some (ISO 1704067200000),
         reminderLastNotified = None \<rparr>]))
   \<and> list_all (\<lambda>h. streak h \<le> longestStreak h)
        (fst (handleAddHabit ''u2'' 1704185400000 (lit ''Read'') [] [\<lparr> idH = ''u1'', name = lit ''Run'', reminderTime = Some ''09:00'',
         createdAt = ISO 1704000000000, history = [ISO 1704067200000], streak = 1,
         longestStreak = 4, lastCompleted = Some (ISO 1704067200000),
         reminderLastNotified = None \<rparr>]))
   \<and> \<not> hasCompletedToday 0 1704185400000 (\<lparr> idH = ''u1'', name = lit ''Run'', reminderTime = Some ''09:00'',
         createdAt = ISO 1704000000000, history = [ISO 1704067200000], streak = 1,
         longestStreak = 4, lastCompleted = Some (ISO 1704067200000),
         reminderLastNotified = None \<rparr>)
   \<and> (\<exists>h'. completeCallback 0 1704185400000 ''u1'' (\<lparr> idH = ''u1'', name = lit ''Run'', reminderTime = Some ''09:00'',
         createdAt = ISO 1704000000000, history = [ISO 1704067200000], streak = 1,
         longestStreak = 4, lastCompleted = Some (ISO 1704067200000),
         reminderLastNotified = None \<rparr>) = Inr h'
          \<and> streak h' = 2 \<and> longestStreak h' = max (streak h') 4)
   \<and> streak (resetCallback ''u1'' (\<lparr> idH = ''u1'', name = lit ''Run'', reminderTime = Some ''09:00'',
         createdAt = ISO 1704000000000, history = [ISO 1704067200000], streak = 1,
         longestStreak = 4, lastCompleted = Some (ISO 1704067200000),
         reminderLastNotified = None \<rparr>)) = 0
   \<and> longestStreak (resetCallback ''u1'' (\<lparr> idH = ''u1'', name = lit ''Run'', reminderTime = Some ''09:00'',
         createdAt = ISO 1704000000000, history = [ISO 1704067200000], streak = 1,
         longestStreak = 4, lastCompleted = Some (ISO 1704067200000),
         reminderLastNotified = None \<rparr>)) = 0"
proof -
  let ?h = "\<lparr> idH = ''u1'', name = lit ''Run'', reminderTime = Some ''09:00'',
         createdAt = ISO 1704000000000, history = [ISO 1704067200000], streak = 1,
         longestStreak = 4, lastCompleted = Some (ISO 1704067200000),
         reminderLastNotified = None \<rparr>"
  let ?now = "1704185400000 :: int"
  have inv: "\<forall>h\<in>set [?h]. streak h \<le> longestStreak h"
    by simp
  note t = longest_streak_invariant [OF inv, of "''u2''" ?now "lit ''Read''" "[]" 0 "''u1''"
      decimalNumber Granted DuringCall "''t1''" None]
  have v: "validHistory 0 ?h"
    by (simp add: validHistory_def validStamp_def inYears_def inYearsDay_def localDay_def
        firstDay_def lastDay_def)
  have y: "inYears 0 ?now"
    by (simp add: inYears_def inYearsDay_def localDay_def firstDay_def lastDay_def)
  have n: "\<not> hasCompletedToday 0 ?now ?h"
    by (simp add: hasCompletedToday_def isToday_def localDay_def)
  have cb: "completeCallback 0 ?now ''u1'' ?h = Inr (completed 0 ?now ''u1'' ?h)"
    by (rule completeCallback_valid [OF v y])
  have st: "streak (completed 0 ?now ''u1'' ?h) = 2"
    using n by (simp add: completed_def nextStreak_def lastCompletedDay_def localDay_def)
  from t have "\<forall>h h'. idH h = ''u1'' \<and> \<not> hasCompletedToday 0 ?now h
                \<and> completeCallback 0 ?now ''u1'' h = Inr h' \<longrightarrow>
               longestStreak h' = max (streak h') (longestStreak h)"
    by (elim conjE)
  from this [rule_format, of ?h "completed 0 ?now ''u1'' ?h"] n cb
  have lg: "longestStreak (completed 0 ?now ''u1'' ?h) = max (streak (completed 0 ?now ''u1'' ?h)) 4"
    by simp
  from t v y obtain hs' where c: "completeHabit 0 ?now ''u1'' [?h] = Inr hs'"
    by auto
  with t have ci: "list_all (\<lambda>h. streak h \<le> longestStreak h) hs'"
    by (simp add: list_all_iff)
  from t have rs: "list_all (\<lambda>h. streak h \<le> longestStreak h) (resetHabit ''u1'' [?h])"
    and tk: "list_all (\<lambda>h. streak h \<le> longestStreak h)
        (fst (reminderTick decimalNumber 0 Granted DuringCall ''t1'' ?now [?h]))"
    and ad: "list_all (\<lambda>h. streak h \<le> longestStreak h)
        (fst (handleAddHabit ''u2'' ?now (lit ''Read'') [] [?h]))"
    by (simp_all add: list_all_iff)
  from t have r0: "streak (resetCallback ''u1'' ?h) = 0 \<and> longestStreak (resetCallback ''u1'' ?h) = 0"
    by simp
  from c ci have e1: "\<exists>hs'. completeHabit 0 ?now ''u1'' [?h] = Inr hs'
          \<and> list_all (\<lambda>h. streak h \<le> longestStreak h) hs'"
    by blast
  from cb st lg have e2: "\<exists>h'. completeCallback 0 ?now ''u1'' ?h = Inr h'
          \<and> streak h' = 2 \<and> longestStreak h' = max (streak h') 4"
    by blast
  from v y n e1 rs tk ad e2 r0 show ?thesis
    by simp
qed

text \<open>
  Claim C9. Complete and Reset keep the length of the store and leave every habit with
  another identifier as it was (Complete returns when the histories hold timestamps that
  parse, of the years 0001 to 9999, and the clock is in these years); after a reminder
  tick every habit is as before but for its last-reminder-fired date.
\<close>

theorem operations_frame:
  "(\<forall>hs'. completeHabit tz now habitId hs = Inr hs' \<longrightarrow>
        length hs' = length hs
        \<and> (\<forall>i<length hs. idH (hs ! i) \<noteq> habitId \<longrightarrow> hs' ! i = hs ! i))
   \<and> ((\<forall>h\<in>set hs. validHistory tz h) \<and> inYears tz now \<longrightarrow>
         (\<exists>hs'. completeHabit tz now habitId hs = Inr hs'))
   \<and> length (resetHabit habitId hs) = length hs
   \<and> (\<forall>i<length hs. idH (hs ! i) \<noteq> habitId \<longrightarrow> resetHabit habitId hs ! i = hs ! i)
   \<and> length (fst (reminderTick num tz perm run uuid now hs)) = length hs
   \<and> (\<forall>i<length hs.
         (fst (reminderTick num tz perm run uuid now hs) ! i)
           \<lparr> reminderLastNotified := reminderLastNotified (hs ! i) \<rparr> = hs ! i)"
proof (intro conjI)
  show "\<forall>hs'. completeHabit tz now habitId hs = Inr hs' \<longrightarrow>
        length hs' = length hs
        \<and> (\<forall>i<length hs. idH (hs ! i) \<noteq> habitId \<longrightarrow> hs' ! i = hs ! i)"
  proof (intro allI impI conjI)
    fix hs'
    assume c: "completeHabit tz now habitId hs = Inr hs'"
    show "length hs' = length hs"
      by (rule completeHabit_nth(1) [OF c])
    fix i
    assume "i < length hs" and "idH (hs ! i) \<noteq> habitId"
    with completeHabit_nth(2) [OF c, of i] show "hs' ! i = hs ! i"
      by (simp add: completeCallback_noop)
  qed
  show "(\<forall>h\<in>set hs. validHistory tz h) \<and> inYears tz now \<longrightarrow>
         (\<exists>hs'. completeHabit tz now habitId hs = Inr hs')"
    by (simp add: completeHabit_valid)
  show "length (resetHabit habitId hs) = length hs"
    by (simp add: resetHabit_def)
  show "\<forall>i<length hs. idH (hs ! i) \<noteq> habitId \<longrightarrow> resetHabit habitId hs ! i = hs ! i"
    by (simp add: resetHabit_def resetCallback_def)
  show "length (fst (reminderTick num tz perm run uuid now hs)) = length hs"
    by (simp add: fst_reminderTick)
  show "\<forall>i<length hs.
         (fst (reminderTick num tz perm run uuid now hs) ! i)
           \<lparr> reminderLastNotified := reminderLastNotified (hs ! i) \<rparr> = hs ! i"
    by (simp add: fst_reminderTick)
qed

theorem operations_frame_witness:
  "idH (\<lparr> idH = ''u2'', name = lit ''Read'', reminderTime = None,
         createdAt = ISO 1704000000000, history = [], streak = 0,
         longestStreak = 2, lastCompleted = None,
         reminderLastNotified = None \<rparr> :: habit) \<noteq> ''u1''
   \<and> validHistory 0 (\<lparr> idH = ''u1'', name = lit ''Run'', reminderTime = Some ''09:00'',
         createdAt = ISO 1704000000000, history = [ISO 1704067200000], streak = 1,
         longestStreak = 4, lastCompleted = Some (ISO 1704067200000),
         reminderLastNotified = None \<rparr>) \<and> validHistory 0 (\<lparr> idH = ''u2'', name = lit ''Read'', reminderTime = None,
         createdAt = ISO 1704000000000, history = [], streak = 0,
         longestStreak = 2, lastCompleted = None,
         reminderLastNotified = None \<rparr>)
   \<and> inYears 0 1704185400000
   \<and> (\<exists>hs'. completeHabit 0 1704185400000 ''u1'' [\<lparr> idH = ''u1'', name = lit ''Run'', reminderTime = Some ''09:00'',
         createdAt = ISO 1704000000000, history = [ISO 1704067200000], streak = 1,
         longestStreak = 4, lastCompleted = Some (ISO 1704067200000),
         reminderLastNotified = None \<rparr>, \<lparr> idH = ''u2'', name = lit ''Read'', reminderTime = None,
         createdAt = ISO 1704000000000, history = [], streak = 0,
         longestStreak = 2, lastCompleted = None,
         reminderLastNotified = None \<rparr>] = Inr hs' \<and> hs' ! 1 = \<lparr> idH = ''u2'', name = lit ''Read'', reminderTime = None,
         createdAt = ISO 1704000000000, history = [], streak = 0,
         longestStreak = 2, lastCompleted = None,
         reminderLastNotified = None \<rparr>)
   \<and> resetHabit ''u1'' [\<lparr> idH = ''u1'', name = lit ''Run'', reminderTime = Some ''09:00'',
         createdAt = ISO 1704000000000, history = [ISO 1704067200000], streak = 1,
         longestStreak = 4, lastCompleted = Some (ISO 1704067200000),
         reminderLastNotified = None \<rparr>, \<lparr> idH = ''u2'', name = lit ''Read'', reminderTime = None,
         createdAt = ISO 1704000000000, history = [], streak = 0,
         longestStreak = 2, lastCompleted = None,
         reminderLastNotified = None \<rparr>] ! 1 = \<lparr> idH = ''u2'', name = lit ''Read'', reminderTime = None,
         createdAt = ISO 1704000000000, history = [], streak = 0,
         longestStreak = 2, lastCompleted = None,
         reminderLastNotified = None \<rparr>
   \<and> (fst (reminderTick decimalNumber 0 Granted DuringCall ''t1'' 1704185400000 [\<lparr> idH = ''u1'', name = lit ''Run'', reminderTime = Some ''09:00'',
         createdAt = ISO 1704000000000, history = [ISO 1704067200000], streak = 1,
         longestStreak = 4, lastCompleted = Some (ISO 1704067200000),
         reminderLastNotified = None \<rparr>, \<lparr> idH = ''u2'', name = lit ''Read'', reminderTime = None,
         createdAt = ISO 1704000000000, history = [], streak = 0,
         longestStreak = 2, lastCompleted = None,
         reminderLastNotified = None \<rparr>]) ! 0)
        \<lparr> reminderLastNotified := None \<rparr> = \<lparr> idH = ''u1'', name = lit ''Run'', reminderTime = Some ''09:00'',
         createdAt = ISO 1704000000000, history = [ISO 1704067200000], streak = 1,
         longestStreak = 4, lastCompleted = Some (ISO 1704067200000),
         reminderLastNotified = None \<rparr>"
  using operations_frame [of 0 1704185400000 "''u1''" "[\<lparr> idH = ''u1'', name = lit ''Run'', reminderTime = Some ''09:00'',
         createdAt = ISO 1704000000000, history = [ISO 1704067200000], streak = 1,
         longestStreak = 4, lastCompleted = Some (ISO 1704067200000),
         reminderLastNotified = None \<rparr>, \<lparr> idH = ''u2'', name = lit ''Read'', reminderTime = None,
         createdAt = ISO 1704000000000, history = [], streak = 0,
         longestStreak = 2, lastCompleted = None,
         reminderLastNotified = None \<rparr>]" decimalNumber Granted
      DuringCall "''t1''"]
  by (auto simp: validHistory_def validStamp_def inYears_def inYearsDay_def localDay_def
      firstDay_def lastDay_def)




section \<open>The store keeps its histories valid\<close>

lemma uniqueHistory_Inr_valid:
  assumes "uniqueHistory tz hist = Inr out" and "x \<in> set out"
  shows "validStamp tz x"
proof -
  from assms(1) obtain ks where "mapE (\<lambda>key. toISOString (dateOfKey tz key)) ks = Inr out"
    by (auto simp: uniqueHistory_def split: sum.splits)
  from mapE_set [OF this assms(2)] obtain k where "toISOString (dateOfKey tz k) = Inr x"
    by blast
  then show ?thesis
    by (cases k) (auto simp: dateOfKey_def validStamp_def inYears_def split: if_splits)
qed

lemma validHistory_load: "h \<in> set (load tz stored) \<Longrightarrow> validHistory tz h"
proof (cases stored)
  case (Parsed parsed)
  assume h: "h \<in> set (load tz stored)"
  show ?thesis
  proof (cases "mapE (loadCallback tz) parsed")
    case (Inl e)
    with h Parsed show ?thesis by (simp add: load_def)
  next
    case (Inr hs)
    with h Parsed have "h \<in> set hs" by (simp add: load_def)
    from mapE_set [OF Inr this] obtain s where "loadCallback tz s = Inr h"
      by blast
    then show ?thesis
      by (auto simp: loadCallback_def validHistory_def list_all_iff split: sum.splits
          dest: uniqueHistory_Inr_valid)
  qed
qed (simp_all add: load_def)

lemma validHistory_handleAddHabit:
  "\<forall>h\<in>set hs. validHistory tz h \<Longrightarrow>
   \<forall>h\<in>set (fst (handleAddHabit uuid now nm time hs)). validHistory tz h"
  by (simp add: handleAddHabit_def createHabit_def validHistory_def Let_def)

lemma validHistory_completeCallback:
  assumes "validHistory tz h" and "completeCallback tz now habitId h = Inr h'"
  shows "validHistory tz h'"
  using assms
  by (auto simp: completeCallback_result validHistory_def list_all_iff
      split: if_splits sum.splits dest: uniqueHistory_Inr_valid)

lemma validHistory_completeHabit:
  assumes "\<forall>h\<in>set hs. validHistory tz h" and "completeHabit tz now habitId hs = Inr hs'"
  shows "\<forall>h\<in>set hs'. validHistory tz h"
proof
  fix h'
  assume "h' \<in> set hs'"
  from mapE_set [OF assms(2) [unfolded completeHabit_def] this]
  obtain h where "h \<in> set hs" and "completeCallback tz now habitId h = Inr h'"
    by blast
  then show "validHistory tz h'"
    using assms(1) validHistory_completeCallback by blast
qed

lemma validHistory_resetHabit:
  "\<forall>h\<in>set hs. validHistory tz h \<Longrightarrow> \<forall>h\<in>set (resetHabit habitId hs). validHistory tz h"
  by (auto simp: resetHabit_def resetCallback_def validHistory_def)

lemma validHistory_reminderTick:
  "\<forall>h\<in>set hs. validHistory tz h \<Longrightarrow>
   \<forall>h\<in>set (fst (reminderTick num tz' perm run uuid now hs)). validHistory tz h"
  by (auto simp: fst_reminderTick validHistory_def)

end
